theory Spec2Isabelle
  imports Complex_Main
begin

section \<open>Rfam quality-control statistics of Bio::Easel's MSA.c\<close>

text \<open>
  A shallow embedding of the statistics helpers of \<^verbatim>\<open>src/lib/Bio/Easel/MSA.c\<close>:
  \<^verbatim>\<open>_c_bp_dist\<close>, \<^verbatim>\<open>_c_bp_is_canonical\<close>, \<^verbatim>\<open>_c_max_rna_two_letter_ambiguity\<close>,
  \<^verbatim>\<open>_c_rfam_comp_and_len_stats\<close>, \<^verbatim>\<open>_c_rfam_bp_stats\<close>, \<^verbatim>\<open>_c_rfam_pid_stats\<close>,
  \<^verbatim>\<open>_c_rfam_qc_stats\<close> and \<^verbatim>\<open>_c_pairwise_identity\<close>. The leading underscore of the C
  names is dropped. A C \<^verbatim>\<open>double\<close> is a \<^typ>\<open>real\<close>: rounding is not modelled. A
  division whose divisor can be zero is written \<open>ddiv\<close>, whose result \<open>None\<close> stands
  for the non-finite value (NaN or an infinity) that IEEE arithmetic yields there.
\<close>

subsection \<open>Base-pair helpers\<close>

text \<open>\<^verbatim>\<open>_c_bp_dist\<close> (MSA.c 772-778).\<close>

definition c_bp_dist :: "int \<Rightarrow> int \<Rightarrow> int \<Rightarrow> int \<Rightarrow> int" where
  "c_bp_dist a1 b1 a2 b2 =
     (if a1 = a2 \<and> b1 = b2 then 0
      else if a1 \<noteq> a2 \<and> b1 \<noteq> b2 then 2
      else 1)"

text \<open>
  \<^verbatim>\<open>_c_bp_is_canonical\<close> (MSA.c 807-877): the outer \<^verbatim>\<open>switch (a)\<close> with one inner
  \<^verbatim>\<open>switch (b)\<close> per case; C's TRUE and FALSE are \<^typ>\<open>bool\<close>.
\<close>

definition c_bp_is_canonical :: "int \<Rightarrow> int \<Rightarrow> bool" where
  "c_bp_is_canonical a b =
     (if a = 0 then b = 3
      else if a = 1 then b = 2
      else if a = 2 then (b = 1 \<or> b = 3)
      else if a = 3 then (b = 0 \<or> b = 2)
      else if a = 5 then b = 6
      else if a = 6 then b = 5
      else if a = 7 then b = 8
      else if a = 8 then b = 7
      else if a = 9 then b = 9
      else if a = 10 then b = 10
      else False)"

subsection \<open>Most common two-letter ambiguity\<close>

text \<open>
  \<^verbatim>\<open>_c_max_rna_two_letter_ambiguity\<close> (MSA.c 898-933). Each \<^verbatim>\<open>if\<close> of the source is one
  step on the pair \<open>(max_2l, max_2l_frac)\<close>; the step for \<open>R\<close> stores
  \<open>(act + cct) / sum\<close>, as line 910 does. With \<open>sum = 0\<close> the C code divides by zero;
  the theorems below only use inputs whose sum is positive.
\<close>

definition c_max_rna_two_letter_ambiguity :: "real \<Rightarrow> real \<Rightarrow> real \<Rightarrow> real \<Rightarrow> char \<times> real" where
  "c_max_rna_two_letter_ambiguity act cct gct uct =
     (let sum = act + cct + gct + uct;
          m0 = (CHR ''M'', (act + cct) / sum);
          m1 = (if (act + gct) / sum > snd m0 then (CHR ''R'', (act + cct) / sum) else m0);
          m2 = (if (act + uct) / sum > snd m1 then (CHR ''W'', (act + uct) / sum) else m1);
          m3 = (if (cct + gct) / sum > snd m2 then (CHR ''S'', (cct + gct) / sum) else m2);
          m4 = (if (cct + uct) / sum > snd m3 then (CHR ''Y'', (cct + uct) / sum) else m3);
          m5 = (if (gct + uct) / sum > snd m4 then (CHR ''K'', (gct + uct) / sum) else m4)
      in m5)"

text \<open>
  The classifier as the specification words it (section 4.5): the six two-way sums over
  the total in the order M, R, W, S, Y, K, a later one replacing the best so far only
  when it is strictly greater.
\<close>

definition spec_dominantTwoLetterCode :: "real \<Rightarrow> real \<Rightarrow> real \<Rightarrow> real \<Rightarrow> char \<times> real" where
  "spec_dominantTwoLetterCode countA countC countG countU =
     (let total = countA + countC + countG + countU
      in fold (\<lambda>x best. if snd x > snd best then x else best)
           [(CHR ''R'', (countA + countG) / total),
            (CHR ''W'', (countA + countU) / total),
            (CHR ''S'', (countC + countG) / total),
            (CHR ''Y'', (countC + countU) / total),
            (CHR ''K'', (countG + countU) / total)]
           (CHR ''M'', (countA + countC) / total))"

subsection \<open>The alignment and the Easel library\<close>

text \<open>
  Every \<^verbatim>\<open>croak\<close> of the source and every status other than \<^verbatim>\<open>eslOK\<close> that a function
  hands back is a value of \<open>error\<close>. Allocation failures (\<^verbatim>\<open>ESL_ALLOC\<close>) are not
  modelled.
\<close>

datatype error =
    ContractViolation
  | InconsistentStructure
  | ProblemCounting
  | SeqsDifferentLengths
  | EslStatus

text \<open>Division of doubles where the source does not exclude a zero divisor.\<close>

definition ddiv :: "real \<Rightarrow> real \<Rightarrow> real option" where
  "ddiv x y = (if y = 0 then None else Some (x / y))"

text \<open>
  \<^verbatim>\<open>ESL_ALPHABET\<close> is a type of the Easel library, which MSA.c calls and does not
  contain. The record holds what the functions below use of it: the size \<open>K\<close> (also the
  code of the gap symbol), and the library's \<^verbatim>\<open>esl_abc_XIsResidue\<close> and
  \<^verbatim>\<open>esl_abc_DCount\<close> as fields, so that they are parameters of every function that
  calls them. \<open>DCount ct x wt\<close> is the counts array after the call, \<open>None\<close> when the
  status is not \<^verbatim>\<open>eslOK\<close>.
\<close>

record esl_alphabet =
  abc_K :: int
  XIsResidue :: "int \<Rightarrow> bool"
  DCount :: "real list \<Rightarrow> int \<Rightarrow> real \<Rightarrow> real list option"

text \<open>
  \<^verbatim>\<open>ESL_MSA\<close>, the fields read by the statistics. \<open>digital\<close> is
  \<^verbatim>\<open>msa->flags & eslMSA_DIGITAL\<close>. A row \<open>ax msa ! i\<close> is indexed as in C: columns
  \<open>1..alen\<close>, with a sentinel at \<open>0\<close> and at \<open>alen + 1\<close>.
\<close>

record esl_msa =
  nseq :: int
  alen :: int
  digital :: bool
  abc :: esl_alphabet
  ax :: "int list list"
  aseq :: "string list"
  wgt :: "real list"
  ss_cons :: string

text \<open>
  The other Easel routines the source calls, as parameters: \<open>esl_wuss2ct s n\<close> is the
  partner array \<open>ct[0..n]\<close> that \<^verbatim>\<open>esl_wuss_nopseudo\<close> followed by \<^verbatim>\<open>esl_wuss2ct\<close>
  yields for the structure string \<open>s\<close>, and the two pairwise identities yield the
  identity, each \<open>None\<close> when the status is not \<^verbatim>\<open>eslOK\<close>.
\<close>

record easel =
  esl_wuss2ct :: "string \<Rightarrow> int \<Rightarrow> int list option"
  esl_dst_XPairId :: "esl_alphabet \<Rightarrow> int list \<Rightarrow> int list \<Rightarrow> real option"
  esl_dst_CPairId :: "string \<Rightarrow> string \<Rightarrow> real option"

text \<open>
  A loop whose body can fail: the fold stops at the first error, as the \<^verbatim>\<open>croak\<close> or
  \<^verbatim>\<open>return status\<close> inside the C loop does.
\<close>

fun fold_err :: "('a \<Rightarrow> 's \<Rightarrow> error + 's) \<Rightarrow> 'a list \<Rightarrow> 's \<Rightarrow> error + 's" where
  "fold_err f [] s = Inr s"
| "fold_err f (x # xs) s = (case f x s of Inl e \<Rightarrow> Inl e | Inr s' \<Rightarrow> fold_err f xs s')"

text \<open>
  The shape the functions below rely on: as many rows and weights as sequences, every
  row with its two sentinels.
\<close>

definition wf_msa :: "esl_msa \<Rightarrow> bool" where
  "wf_msa msa \<longleftrightarrow>
     0 \<le> nseq msa \<and> 0 \<le> alen msa
     \<and> length (ax msa) = nat (nseq msa)
     \<and> length (wgt msa) = nat (nseq msa)
     \<and> list_all (\<lambda>row. length row = nat (alen msa) + 2) (ax msa)"

subsection \<open>Basepair statistics\<close>

text \<open>
  \<^verbatim>\<open>_c_rfam_bp_stats\<close> (MSA.c 1047-1189). First loop (1087-1093): the left halves of
  the pairs of \<open>ct\<close> and their number.
\<close>

definition locate_bp :: "int list \<Rightarrow> nat \<Rightarrow> int list \<times> int \<Rightarrow> int list \<times> int" where
  "locate_bp ct apos st =
     (case st of (rposA, nbp) \<Rightarrow>
        if ct ! (apos + 1) > int (apos + 1)
        then (rposA[apos := ct ! (apos + 1) - 1], nbp + 1)
        else (rposA, nbp))"

definition locate_bps :: "int \<Rightarrow> int list \<Rightarrow> int list \<times> int" where
  "locate_bps n ct = fold (locate_bp ct) [0..<nat n] (replicate (nat n) (- 1), 0)"

text \<open>The arrays the main loop (1120-1152) updates.\<close>

record bp_acc =
  seq_canA :: "int list"
  pos_canA :: "int list"
  covA :: "real list"
  cov_cntA :: "real list"

text \<open>
  Lines 1135-1145: \<open>contrib\<close> of sequence \<open>j\<close> against sequence \<open>i\<close>. The values
  \<open>seqwt1\<close>, \<open>a1\<close>, \<open>b1\<close> and \<open>iscanonical1\<close>, which the source sets before the
  loop over \<open>j\<close> (lines 1121-1128), are read from the alignment here.
\<close>

definition bp_contrib :: "esl_msa \<Rightarrow> nat \<Rightarrow> nat \<Rightarrow> nat \<Rightarrow> nat \<Rightarrow> real" where
  "bp_contrib msa i apos rpos j =
     (let seqwt1 = wgt msa ! i;
          a1 = ax msa ! i ! (apos + 1);
          b1 = ax msa ! i ! (rpos + 1);
          iscanonical1 = c_bp_is_canonical a1 b1;
          seqwt2 = wgt msa ! j;
          a2 = ax msa ! j ! (apos + 1);
          b2 = ax msa ! j ! (rpos + 1);
          iscanonical2 = c_bp_is_canonical a2 b2;
          d = c_bp_dist a1 b1 a2 b2
      in if iscanonical1 \<and> iscanonical2
         then real_of_int d * (seqwt1 + seqwt2)
         else - 1 * real_of_int d * (seqwt1 + seqwt2))"

text \<open>Lines 1134-1148: the body of the loop over \<open>j\<close>.\<close>

definition bp_seq_pair :: "esl_msa \<Rightarrow> nat \<Rightarrow> nat \<Rightarrow> nat \<Rightarrow> nat \<Rightarrow> bp_acc \<Rightarrow> bp_acc" where
  "bp_seq_pair msa i apos rpos j acc =
     acc\<lparr>covA := (covA acc)[apos := covA acc ! apos + bp_contrib msa i apos rpos j],
         cov_cntA := (cov_cntA acc)[apos := cov_cntA acc ! apos + (wgt msa ! i + wgt msa ! j)]\<rparr>"

text \<open>Lines 1123-1150: the body of the loop over \<open>apos\<close>, for sequence \<open>i\<close>.\<close>

definition bp_seq_pos :: "esl_msa \<Rightarrow> int list \<Rightarrow> nat \<Rightarrow> nat \<Rightarrow> bp_acc \<Rightarrow> bp_acc" where
  "bp_seq_pos msa rposA i apos acc =
     (if rposA ! apos \<noteq> - 1 then
        (let rpos = nat (rposA ! apos);
             a1 = ax msa ! i ! (apos + 1);
             b1 = ax msa ! i ! (rpos + 1)
         in if a1 \<noteq> abc_K (abc msa) \<or> b1 \<noteq> abc_K (abc msa) then
              (let acc1 = (if c_bp_is_canonical a1 b1
                           then acc\<lparr>seq_canA := (seq_canA acc)[i := seq_canA acc ! i + 1],
                                    pos_canA := (pos_canA acc)[apos := pos_canA acc ! apos + 1]\<rparr>
                           else acc)
               in fold (bp_seq_pair msa i apos rpos) [i + 1..<nat (nseq msa)] acc1)
            else acc)
      else acc)"

definition bp_seq :: "esl_msa \<Rightarrow> int list \<Rightarrow> nat \<Rightarrow> bp_acc \<Rightarrow> bp_acc" where
  "bp_seq msa rposA i acc = fold (bp_seq_pos msa rposA i) [0..<nat (alen msa)] acc"

definition bp_accumulate :: "esl_msa \<Rightarrow> int list \<Rightarrow> bp_acc" where
  "bp_accumulate msa rposA =
     fold (bp_seq msa rposA) [0..<nat (nseq msa)]
       \<lparr>seq_canA = replicate (nat (nseq msa)) 0,
        pos_canA = replicate (nat (alen msa)) 0,
        covA = replicate (nat (alen msa)) 0,
        cov_cntA = replicate (nat (alen msa)) 0\<rparr>"

text \<open>Lines 1158-1164: a position's score over its own weight sum.\<close>

definition bp_normalize :: "int list \<Rightarrow> real list \<Rightarrow> nat \<Rightarrow> real list \<Rightarrow> real list" where
  "bp_normalize rposA cnt apos cov =
     (if rposA ! apos \<noteq> - 1 \<and> \<bar>cnt ! apos\<bar> > 1 / 10 ^ 10
      then cov[apos := cov ! apos / cnt ! apos]
      else cov)"

record bp_stats =
  ret_nbp :: int
  ret_rposA :: "int list"
  ret_seq_canA :: "int list"
  ret_pos_canA :: "int list"
  ret_covA :: "real list"
  ret_mean_cov :: "real option"

definition c_rfam_bp_stats :: "easel \<Rightarrow> esl_msa \<Rightarrow> error + bp_stats" where
  "c_rfam_bp_stats lib msa =
     (case esl_wuss2ct lib (ss_cons msa) (alen msa) of
        None \<Rightarrow> Inl InconsistentStructure
      | Some ct \<Rightarrow>
          (case locate_bps (alen msa) ct of (rposA, nbp) \<Rightarrow>
             (let acc = bp_accumulate msa rposA;
                  mean_cov = (if nbp = 0 then Some 0
                              else ddiv (sum_list (covA acc)) (sum_list (cov_cntA acc)))
              in Inr \<lparr>ret_nbp = nbp,
                      ret_rposA = rposA,
                      ret_seq_canA = seq_canA acc,
                      ret_pos_canA = pos_canA acc,
                      ret_covA = fold (bp_normalize rposA (cov_cntA acc))
                                   [0..<nat (alen msa)] (covA acc),
                      ret_mean_cov = mean_cov\<rparr>)))"

text \<open>
  What the main loop adds up, in closed form. Sequence \<open>i\<close> enters position \<open>apos\<close>
  when \<open>apos\<close> is the left half of a pair and the test of line 1127 passes: \<open>a1\<close> is
  not the gap code or \<open>b1\<close> is not the gap code.
\<close>

definition bp_enters :: "esl_msa \<Rightarrow> int list \<Rightarrow> nat \<Rightarrow> nat \<Rightarrow> bool" where
  "bp_enters msa rposA i apos \<longleftrightarrow>
     rposA ! apos \<noteq> - 1
     \<and> (ax msa ! i ! (apos + 1) \<noteq> abc_K (abc msa)
        \<or> ax msa ! i ! (nat (rposA ! apos) + 1) \<noteq> abc_K (abc msa))"

definition bp_canon :: "esl_msa \<Rightarrow> int list \<Rightarrow> nat \<Rightarrow> nat \<Rightarrow> bool" where
  "bp_canon msa rposA i apos \<longleftrightarrow>
     c_bp_is_canonical (ax msa ! i ! (apos + 1)) (ax msa ! i ! (nat (rposA ! apos) + 1))"

definition bp_cov_row :: "esl_msa \<Rightarrow> int list \<Rightarrow> nat \<Rightarrow> nat \<Rightarrow> real" where
  "bp_cov_row msa rposA i apos =
     (if bp_enters msa rposA i apos
      then \<Sum>j = i + 1..<nat (nseq msa). bp_contrib msa i apos (nat (rposA ! apos)) j
      else 0)"

definition bp_cnt_row :: "esl_msa \<Rightarrow> int list \<Rightarrow> nat \<Rightarrow> nat \<Rightarrow> real" where
  "bp_cnt_row msa rposA i apos =
     (if bp_enters msa rposA i apos
      then \<Sum>j = i + 1..<nat (nseq msa). wgt msa ! i + wgt msa ! j
      else 0)"

text \<open>
  The array of right partners as the first loop leaves it: \<open>- 1\<close>, or a column to the
  right of \<open>apos\<close> inside the alignment.
\<close>

definition wf_rposA :: "esl_msa \<Rightarrow> int list \<Rightarrow> bool" where
  "wf_rposA msa rposA \<longleftrightarrow>
     length rposA = nat (alen msa)
     \<and> list_all (\<lambda>p. rposA ! p = - 1 \<or> (int p < rposA ! p \<and> rposA ! p < alen msa))
          [0..<nat (alen msa)]"

text \<open>
  The covariation sums as the specification words them (section 4.4): a sequence takes
  part at a pair of columns only when both halves of its pair are residues, that is,
  neither is the gap code.
\<close>

definition spec_bp_enters :: "esl_msa \<Rightarrow> int list \<Rightarrow> nat \<Rightarrow> nat \<Rightarrow> bool" where
  "spec_bp_enters msa rposA i apos \<longleftrightarrow>
     rposA ! apos \<noteq> - 1
     \<and> ax msa ! i ! (apos + 1) \<noteq> abc_K (abc msa)
     \<and> ax msa ! i ! (nat (rposA ! apos) + 1) \<noteq> abc_K (abc msa)"

definition spec_covA :: "esl_msa \<Rightarrow> int list \<Rightarrow> nat \<Rightarrow> real" where
  "spec_covA msa rposA apos =
     (\<Sum>i = 0..<nat (nseq msa).
        if spec_bp_enters msa rposA i apos
        then \<Sum>j = i + 1..<nat (nseq msa).
               if spec_bp_enters msa rposA j apos
               then bp_contrib msa i apos (nat (rposA ! apos)) j else 0
        else 0)"

definition spec_cov_cntA :: "esl_msa \<Rightarrow> int list \<Rightarrow> nat \<Rightarrow> real" where
  "spec_cov_cntA msa rposA apos =
     (\<Sum>i = 0..<nat (nseq msa).
        if spec_bp_enters msa rposA i apos
        then \<Sum>j = i + 1..<nat (nseq msa).
               if spec_bp_enters msa rposA j apos
               then wgt msa ! i + wgt msa ! j else 0
        else 0)"

subsection \<open>Composition and lengths\<close>

text \<open>
  \<^verbatim>\<open>_c_rfam_comp_and_len_stats\<close> (MSA.c 957-1021). The record holds the local arrays
  and counters of the function, which it hands back through its \<^verbatim>\<open>ret_\<close> pointers.
\<close>

record comp_acc =
  abcAA :: "real list list"
  abc_totA :: "real list"
  lenA :: "int list"
  len_tot :: int
  len_min :: int
  len_max :: int

text \<open>
  Lines 989-990, the body of the loop over \<open>apos\<close>: the length counts a residue, and
  every code goes to \<^verbatim>\<open>esl_abc_DCount\<close> with the weight of the sequence.
\<close>

definition comp_col :: "esl_msa \<Rightarrow> nat \<Rightarrow> nat \<Rightarrow> comp_acc \<Rightarrow> error + comp_acc" where
  "comp_col msa i apos st =
     (let x = ax msa ! i ! (apos + 1);
          st1 = (if XIsResidue (abc msa) x
                 then st\<lparr>lenA := (lenA st)[i := lenA st ! i + 1]\<rparr> else st)
      in case DCount (abc msa) (abcAA st1 ! i) x (wgt msa ! i) of
           None \<Rightarrow> Inl ProblemCounting
         | Some cnt \<Rightarrow> Inr (st1\<lparr>abcAA := (abcAA st1)[i := cnt]\<rparr>))"

text \<open>
  Lines 987-995, the body of the loop over \<open>i\<close>; \<^verbatim>\<open>esl_vec_DAdd\<close> adds the first
  \<open>K + 1\<close> counts of the sequence to the totals.
\<close>

definition comp_seq :: "esl_msa \<Rightarrow> nat \<Rightarrow> comp_acc \<Rightarrow> error + comp_acc" where
  "comp_seq msa i st =
     (case fold_err (comp_col msa i) [0..<nat (alen msa)] st of
        Inl e \<Rightarrow> Inl e
      | Inr st1 \<Rightarrow>
          Inr (st1\<lparr>abc_totA := map (\<lambda>a. abc_totA st1 ! a + abcAA st1 ! i ! a)
                                  [0..<nat (abc_K (abc msa) + 1)],
                   len_tot := len_tot st1 + lenA st1 ! i,
                   len_min := (if i = 0 then lenA st1 ! i else min (len_min st1) (lenA st1 ! i)),
                   len_max := (if i = 0 then lenA st1 ! i else max (len_max st1) (lenA st1 ! i))\<rparr>))"

definition c_rfam_comp_and_len_stats :: "esl_msa \<Rightarrow> error + comp_acc" where
  "c_rfam_comp_and_len_stats msa =
     (if \<not> digital msa then Inl ContractViolation
      else fold_err (comp_seq msa) [0..<nat (nseq msa)]
             \<lparr>abcAA = replicate (nat (nseq msa)) (replicate (nat (abc_K (abc msa) + 1)) 0),
              abc_totA = replicate (nat (abc_K (abc msa) + 1)) 0,
              lenA = replicate (nat (nseq msa)) 0,
              len_tot = 0, len_min = 0, len_max = 0\<rparr>)"



subsection \<open>Pairwise identity\<close>

text \<open>
  The pairwise identity of sequences \<open>i\<close> and \<open>j\<close> as both \<^verbatim>\<open>_c_rfam_pid_stats\<close> (lines
  1220-1225) and \<^verbatim>\<open>_c_pairwise_identity\<close> (lines 1460-1465) obtain it from Easel.
\<close>

definition msa_pairid :: "easel \<Rightarrow> esl_msa \<Rightarrow> nat \<Rightarrow> nat \<Rightarrow> real option" where
  "msa_pairid lib msa i j =
     (if digital msa then esl_dst_XPairId lib (abc msa) (ax msa ! i) (ax msa ! j)
      else esl_dst_CPairId lib (aseq msa ! i) (aseq msa ! j))"

text \<open>
  \<^verbatim>\<open>_c_rfam_pid_stats\<close> (MSA.c 1208-1238). The divisor of the mean is the C expression
  \<^verbatim>\<open>msa->nseq * (msa->nseq-1) / 2\<close>, evaluated in \<^verbatim>\<open>int\<close> before the cast to
  \<^verbatim>\<open>double\<close>: \<open>int32\<close> is the value of a 32-bit \<^verbatim>\<open>int\<close> (where the mathematical result
  does not fit, C leaves the behaviour undefined; the model takes the two's-complement
  wrap-around of the usual compilers), and \<open>c_div\<close> is C's division, which truncates.
\<close>

definition int32 :: "int \<Rightarrow> int" where
  "int32 x = (x + 2 ^ 31) mod 2 ^ 32 - 2 ^ 31"

definition c_div :: "int \<Rightarrow> int \<Rightarrow> int" where
  "c_div a b = (if (a < 0) = (b < 0) then \<bar>a\<bar> div \<bar>b\<bar> else - (\<bar>a\<bar> div \<bar>b\<bar>))"

definition pid_npairs :: "int \<Rightarrow> int" where
  "pid_npairs n = c_div (int32 (n * int32 (n - 1))) 2"

record pid_acc =
  pid_mean :: real
  pid_min :: real
  pid_max :: real

definition pid_pair :: "easel \<Rightarrow> esl_msa \<Rightarrow> nat \<Rightarrow> nat \<Rightarrow> pid_acc \<Rightarrow> error + pid_acc" where
  "pid_pair lib msa i j st =
     (case msa_pairid lib msa i j of
        None \<Rightarrow> Inl EslStatus
      | Some pid \<Rightarrow>
          Inr \<lparr>pid_mean = pid_mean st + pid,
               pid_min = min (pid_min st) pid,
               pid_max = max (pid_max st) pid\<rparr>)"

definition pid_seq :: "easel \<Rightarrow> esl_msa \<Rightarrow> nat \<Rightarrow> pid_acc \<Rightarrow> error + pid_acc" where
  "pid_seq lib msa i st = fold_err (pid_pair lib msa i) [i + 1..<nat (nseq msa)] st"

record pid_stats =
  ret_pid_mean :: "real option"
  ret_pid_min :: real
  ret_pid_max :: real

definition c_rfam_pid_stats :: "easel \<Rightarrow> esl_msa \<Rightarrow> error + pid_stats" where
  "c_rfam_pid_stats lib msa =
     (case fold_err (pid_seq lib msa) [0..<nat (nseq msa)]
             \<lparr>pid_mean = 0, pid_min = 1, pid_max = 0\<rparr> of
        Inl e \<Rightarrow> Inl e
      | Inr st \<Rightarrow>
          Inr \<lparr>ret_pid_mean = ddiv (pid_mean st) (real_of_int (pid_npairs (nseq msa))),
               ret_pid_min = pid_min st,
               ret_pid_max = pid_max st\<rparr>)"

text \<open>\<^verbatim>\<open>_c_pairwise_identity\<close> (MSA.c 1451-1468).\<close>

definition c_pairwise_identity :: "easel \<Rightarrow> esl_msa \<Rightarrow> int \<Rightarrow> int \<Rightarrow> error + real" where
  "c_pairwise_identity lib msa i j =
     (if i < 0 \<or> i \<ge> nseq msa then Inl ContractViolation
      else if j < 0 \<or> j \<ge> nseq msa then Inl ContractViolation
      else case msa_pairid lib msa (nat i) (nat j) of
             None \<Rightarrow> Inl SeqsDifferentLengths
           | Some pid \<Rightarrow> Inr pid)"

text \<open>
  Modelled from the spec: \<^verbatim>\<open>esl_dst_XPairId\<close>, a routine of the Easel library that is not
  part of MSA.c. Section 4.3 of the specification: the identity is the number of aligned
  columns where the two residues are equal and both are not gaps, divided by the number
  of aligned columns where both are not gaps. The aligned columns are the entries of the
  rows between the two sentinels; a gap is the code \<open>K\<close>. The status is not
  \<^verbatim>\<open>eslOK\<close> when the rows differ in length (the message of line 1466). The
  specification gives no value when no column has two residues; 0 is taken there.
\<close>

definition spec_XPairId :: "esl_alphabet \<Rightarrow> int list \<Rightarrow> int list \<Rightarrow> real option" where
  "spec_XPairId a ax1 ax2 =
     (if length ax1 \<noteq> length ax2 then None
      else (let cols = filter (\<lambda>(x, y). x \<noteq> abc_K a \<and> y \<noteq> abc_K a)
                         (zip (butlast (tl ax1)) (butlast (tl ax2)));
                n = length cols;
                m = length (filter (\<lambda>(x, y). x = y) cols)
            in Some (if n = 0 then 0 else real m / real n)))"

text \<open>
  The value of the pair \<open>(i, j)\<close> where the library returns one, and the sum of the
  values of the pairs that the inner loop visits for \<open>i\<close>.
\<close>

definition pidv :: "easel \<Rightarrow> esl_msa \<Rightarrow> nat \<Rightarrow> nat \<Rightarrow> real" where
  "pidv lib msa i j = (case msa_pairid lib msa i j of Some p \<Rightarrow> p | None \<Rightarrow> 0)"

definition pid_row_sum :: "easel \<Rightarrow> esl_msa \<Rightarrow> nat \<Rightarrow> real" where
  "pid_row_sum lib msa i = (\<Sum>j = i + 1..<nat (nseq msa). pidv lib msa i j)"

subsection \<open>The report\<close>

text \<open>
  \<^verbatim>\<open>_c_rfam_qc_stats\<close> (MSA.c 1284-1419) writes three tables. The model returns them
  as values and keeps, of each line, the columns computed from the basepair statistics
  together with the plain counts: for the family the fraction of canonical basepairs
  (line 1344), the mean covariation, the numbers of sequences, columns, basepairs and
  residues; for a sequence the fraction of canonical basepairs (line 1375) and the
  length; for a basepair all four columns (lines 1389-1397). The columns of identities
  and of residue fractions, the call of \<^verbatim>\<open>_c_rfam_pid_stats\<close> that feeds the former (its
  status is ignored), the names and the opening of the output files are left out.
\<close>

record fam_line =
  fam_fractn_canonical_bps :: "real option"
  fam_covariation :: "real option"
  fam_no_seqs :: int
  fam_aln_length :: int
  fam_no_bps :: int
  fam_no_nucs :: int

record seq_line =
  seq_fractn_canonical_bps :: "real option"
  seq_len :: int

record bp_line =
  bp_left :: int
  bp_right :: int
  bp_fractn_canonical_bps :: "real option"
  bp_covariation :: real

record qc_report =
  family :: fam_line
  sequences :: "seq_line list"
  basepairs :: "bp_line list"

definition c_rfam_qc_stats :: "easel \<Rightarrow> esl_msa \<Rightarrow> error + qc_report" where
  "c_rfam_qc_stats lib msa =
     (if \<not> digital msa then Inl ContractViolation
      else case c_rfam_comp_and_len_stats msa of
             Inl e \<Rightarrow> Inl e
           | Inr cs \<Rightarrow>
               (case c_rfam_bp_stats lib msa of
                  Inl e \<Rightarrow> Inl e
                | Inr bp \<Rightarrow>
                    Inr \<lparr>family =
                           \<lparr>fam_fractn_canonical_bps =
                              (if ret_nbp bp = 0 then Some 0
                               else ddiv (real_of_int (sum_list (ret_seq_canA bp)))
                                         (real_of_int (nseq msa) * real_of_int (ret_nbp bp))),
                            fam_covariation = ret_mean_cov bp,
                            fam_no_seqs = nseq msa,
                            fam_aln_length = alen msa,
                            fam_no_bps = ret_nbp bp,
                            fam_no_nucs = len_tot cs\<rparr>,
                         sequences =
                           map (\<lambda>i. \<lparr>seq_fractn_canonical_bps =
                                         (if ret_nbp bp = 0 then Some 0
                                          else ddiv (real_of_int (ret_seq_canA bp ! i))
                                                    (real_of_int (ret_nbp bp))),
                                       seq_len = lenA cs ! i\<rparr>)
                             [0..<nat (nseq msa)],
                         basepairs =
                           map (\<lambda>apos. \<lparr>bp_left = int apos + 1,
                                          bp_right = ret_rposA bp ! apos + 1,
                                          bp_fractn_canonical_bps =
                                            ddiv (real_of_int (ret_pos_canA bp ! apos))
                                                 (real_of_int (nseq msa)),
                                          bp_covariation = ret_covA bp ! apos\<rparr>)
                             (filter (\<lambda>apos. ret_rposA bp ! apos \<noteq> - 1)
                                [0..<nat (alen msa)])\<rparr>))"

subsection \<open>The alphabet of the examples\<close>

text \<open>
  Modelled from the spec: \<^verbatim>\<open>esl_abc_XIsResidue\<close>, a classification of the Easel library
  that is not part of MSA.c. Section 3 of the specification: the codes \<open>0..K-1\<close> are
  the standard residue symbols, the code \<open>K\<close> is the gap (missing, non-residue), and
  the codes above \<open>K\<close> are the degenerate symbols; section 4.2: a degenerate residue is
  a residue for the length. So a residue is a standard or a degenerate code.
\<close>

definition spec_XIsResidue :: "int \<Rightarrow> int \<Rightarrow> bool" where
  "spec_XIsResidue K x \<longleftrightarrow> (0 \<le> x \<and> x < K) \<or> K < x"

text \<open>
  Modelled from the spec: \<^verbatim>\<open>esl_abc_DCount\<close>, a routine of the Easel library that is not
  part of MSA.c. Section 4.2 of the specification: a standard code adds the weight to
  the counter of that code; a degenerate code is skipped entirely and added to no
  counter; section 3: the counter of index \<open>K\<close> is the one of the gaps. The status is
  always \<^verbatim>\<open>eslOK\<close>.
\<close>

definition spec_DCount :: "int \<Rightarrow> real list \<Rightarrow> int \<Rightarrow> real \<Rightarrow> real list option" where
  "spec_DCount K ct x wt =
     (if 0 \<le> x \<and> x \<le> K then Some (ct[nat x := ct ! nat x + wt]) else Some ct)"

text \<open>
  The alphabet of the example alignments: \<open>K = 4\<close> with A=0, C=1, G=2, U=3 and the
  two-letter codes R=5 to W=10, as the header comment of \<^verbatim>\<open>_c_bp_is_canonical\<close> lists
  them, the gap being the code \<open>K\<close> that line 1127 compares with.
\<close>

definition rna_abc :: esl_alphabet where
  "rna_abc = \<lparr>abc_K = 4, XIsResidue = spec_XIsResidue 4, DCount = spec_DCount 4\<rparr>"

subsection \<open>Example alignments\<close>

text \<open>
  Two sequences over two columns that pair with each other (\<open>ct = [0, 2, 1]\<close>): the
  first sequence is \<open>A\<close> followed by a gap, the second is \<open>A U\<close>.
\<close>

definition msa_gap :: esl_msa where
  "msa_gap = \<lparr>nseq = 2, alen = 2, digital = True, abc = rna_abc,
     ax = [[255, 0, 4, 255], [255, 0, 3, 255]], aseq = [], wgt = [1, 1],
     ss_cons = ''<>''\<rparr>"

definition lib_pair :: easel where
  "lib_pair = \<lparr>esl_wuss2ct = (\<lambda>s n. Some [0, 2, 1]),
     esl_dst_XPairId = (\<lambda>a x y. None), esl_dst_CPairId = (\<lambda>x y. None)\<rparr>"

text \<open>One sequence of one column, the degenerate code 5 (\<open>R\<close>).\<close>

definition msa_R :: esl_msa where
  "msa_R = \<lparr>nseq = 1, alen = 1, digital = True, abc = rna_abc,
     ax = [[255, 5, 255]], aseq = [], wgt = [1], ss_cons = ''.''\<rparr>"

text \<open>
  A library whose structure parser finds no pair and whose digital pairwise identity is
  the one modelled from the specification.
\<close>

definition lib_spec :: easel where
  "lib_spec = \<lparr>esl_wuss2ct = (\<lambda>s n. Some (replicate (nat n + 1) 0)),
     esl_dst_XPairId = spec_XPairId, esl_dst_CPairId = (\<lambda>x y. None)\<rparr>"

text \<open>65536 copies of the one-column sequence \<open>A\<close>.\<close>

definition msa_big :: esl_msa where
  "msa_big = \<lparr>nseq = 65536, alen = 1, digital = True, abc = rna_abc,
     ax = replicate 65536 [255, 0, 255], aseq = [], wgt = replicate 65536 1,
     ss_cons = ''.''\<rparr>"

section \<open>Properties\<close>

subsection \<open>Base-pair helpers\<close>

text \<open>
  C6: \<open>c_bp_is_canonical a b\<close> holds exactly for the twelve pairs of the table
  (A:U, U:A, C:G, G:C, G:U, U:G under A=0, C=1, G=2, U=3, and R:Y, Y:R, M:K, K:M, S:S, W:W
  under R=5, Y=6, M=7, K=8, S=9, W=10), for all integers \<open>a\<close> and \<open>b\<close>; so it is
  symmetric in its arguments.
\<close>

theorem c_bp_is_canonical_table:
  "(c_bp_is_canonical a b \<longleftrightarrow>
      (a, b) \<in> {(0, 3), (3, 0), (1, 2), (2, 1), (2, 3), (3, 2),
                 (5, 6), (6, 5), (7, 8), (8, 7), (9, 9), (10, 10)})
   \<and> c_bp_is_canonical a b = c_bp_is_canonical b a"
  by (auto simp: c_bp_is_canonical_def)

text \<open>
  C7: the distance is 0 when both positions agree, 2 when both differ and 1 when exactly
  one differs; it is 0 on equal pairs and symmetric under swapping the two pairs.
\<close>

theorem c_bp_dist_cases:
  "(a1 = a2 \<and> b1 = b2 \<longrightarrow> c_bp_dist a1 b1 a2 b2 = 0)
   \<and> (a1 \<noteq> a2 \<and> b1 \<noteq> b2 \<longrightarrow> c_bp_dist a1 b1 a2 b2 = 2)
   \<and> ((a1 = a2) \<noteq> (b1 = b2) \<longrightarrow> c_bp_dist a1 b1 a2 b2 = 1)
   \<and> c_bp_dist a1 b1 a1 b1 = 0
   \<and> c_bp_dist a1 b1 a2 b2 = c_bp_dist a2 b2 a1 b1"
  by (auto simp: c_bp_dist_def)

theorem c_bp_dist_cases_witness:
  "c_bp_dist 0 3 0 3 = 0 \<and> c_bp_dist 0 3 1 2 = 2 \<and> c_bp_dist 0 3 2 3 = 1
   \<and> c_bp_dist 2 3 0 3 = 1 \<and> c_bp_dist 1 2 0 3 = 2"
  using c_bp_dist_cases [of 0 0 3 3] c_bp_dist_cases [of 0 1 3 2]
    c_bp_dist_cases [of 0 2 3 3] c_bp_dist_cases [of 2 0 3 3]
  by simp

subsection \<open>Most common two-letter ambiguity\<close>

text \<open>
  C1: on the counts A=2, C=1, G=3, U=0 the largest two-way sum is A+G = 5 of 6, the
  answer of the classifier as specified, but the function returns \<open>S\<close> with 4/6; on
  A=1, C=0, G=1, U=0 it returns \<open>R\<close>, whose own sum is the whole total, with the
  fraction 1/2 of \<open>M\<close>.
\<close>

theorem c_max_rna_two_letter_ambiguity_R_step:
  "c_max_rna_two_letter_ambiguity 2 1 3 0 = (CHR ''S'', 2 / 3)
   \<and> spec_dominantTwoLetterCode 2 1 3 0 = (CHR ''R'', 5 / 6)
   \<and> c_max_rna_two_letter_ambiguity 1 0 1 0 = (CHR ''R'', 1 / 2)
   \<and> spec_dominantTwoLetterCode 1 0 1 0 = (CHR ''R'', 1)"
  by (simp add: c_max_rna_two_letter_ambiguity_def spec_dominantTwoLetterCode_def Let_def)

subsection \<open>The loops of the basepair statistics\<close>

lemma bp_seq_pair_fold:
  "fold (bp_seq_pair msa i apos rpos) [a..<b] acc =
     acc\<lparr>covA := (covA acc)[apos := covA acc ! apos + (\<Sum>j = a..<b. bp_contrib msa i apos rpos j)],
         cov_cntA := (cov_cntA acc)[apos := cov_cntA acc ! apos + (\<Sum>j = a..<b. wgt msa ! i + wgt msa ! j)]\<rparr>"
proof (induction b)
  case 0
  then show ?case by simp
next
  case (Suc b)
  show ?case
  proof (cases "a \<le> b")
    case True
    then have "fold (bp_seq_pair msa i apos rpos) [a..<Suc b] acc =
        bp_seq_pair msa i apos rpos b (fold (bp_seq_pair msa i apos rpos) [a..<b] acc)"
      by simp
    also have "\<dots> = acc\<lparr>covA := (covA acc)[apos := covA acc ! apos + (\<Sum>j = a..<Suc b. bp_contrib msa i apos rpos j)],
         cov_cntA := (cov_cntA acc)[apos := cov_cntA acc ! apos + (\<Sum>j = a..<Suc b. wgt msa ! i + wgt msa ! j)]\<rparr>"
      using True unfolding Suc.IH bp_seq_pair_def
      by (cases "apos < length (covA acc)"; cases "apos < length (cov_cntA acc)")
         (simp_all add: add.assoc list_update_beyond not_less)
    finally show ?thesis .
  next
    case False
    then show ?thesis by simp
  qed
qed

lemma bp_seq_pos_eq:
  "bp_seq_pos msa rposA i apos acc =
     (if bp_enters msa rposA i apos then
        acc\<lparr>seq_canA := (if bp_canon msa rposA i apos
                          then (seq_canA acc)[i := seq_canA acc ! i + 1] else seq_canA acc),
            pos_canA := (if bp_canon msa rposA i apos
                          then (pos_canA acc)[apos := pos_canA acc ! apos + 1] else pos_canA acc),
            covA := (covA acc)[apos := covA acc ! apos + bp_cov_row msa rposA i apos],
            cov_cntA := (cov_cntA acc)[apos := cov_cntA acc ! apos + bp_cnt_row msa rposA i apos]\<rparr>
      else acc)"
  by (simp add: bp_seq_pos_def bp_enters_def bp_canon_def bp_cov_row_def bp_cnt_row_def
      bp_seq_pair_fold Let_def)

lemma bp_seq_pos_length:
  "length (covA (bp_seq_pos msa rposA i apos acc)) = length (covA acc)"
  "length (cov_cntA (bp_seq_pos msa rposA i apos acc)) = length (cov_cntA acc)"
  "length (seq_canA (bp_seq_pos msa rposA i apos acc)) = length (seq_canA acc)"
  "length (pos_canA (bp_seq_pos msa rposA i apos acc)) = length (pos_canA acc)"
  by (simp_all add: bp_seq_pos_eq)

lemma bp_seq_pos_covA:
  "p < length (covA acc) \<Longrightarrow>
   covA (bp_seq_pos msa rposA i apos acc) ! p =
     covA acc ! p + (if p = apos then bp_cov_row msa rposA i apos else 0)"
  by (simp add: bp_seq_pos_eq bp_cov_row_def nth_list_update)

lemma bp_seq_pos_cov_cntA:
  "p < length (cov_cntA acc) \<Longrightarrow>
   cov_cntA (bp_seq_pos msa rposA i apos acc) ! p =
     cov_cntA acc ! p + (if p = apos then bp_cnt_row msa rposA i apos else 0)"
  by (simp add: bp_seq_pos_eq bp_cnt_row_def nth_list_update)

lemma bp_seq_pos_pos_canA:
  "p < length (pos_canA acc) \<Longrightarrow>
   pos_canA (bp_seq_pos msa rposA i apos acc) ! p =
     pos_canA acc ! p
     + (if p = apos \<and> bp_enters msa rposA i apos \<and> bp_canon msa rposA i apos then 1 else 0)"
  by (simp add: bp_seq_pos_eq nth_list_update)

lemma bp_seq_pos_seq_canA:
  "k < length (seq_canA acc) \<Longrightarrow>
   seq_canA (bp_seq_pos msa rposA i apos acc) ! k =
     seq_canA acc ! k
     + (if k = i \<and> bp_enters msa rposA i apos \<and> bp_canon msa rposA i apos then 1 else 0)"
  by (simp add: bp_seq_pos_eq nth_list_update)

lemma bp_seq_pos_fold_length:
  "length (covA (fold (bp_seq_pos msa rposA i) [0..<m] acc)) = length (covA acc)"
  "length (cov_cntA (fold (bp_seq_pos msa rposA i) [0..<m] acc)) = length (cov_cntA acc)"
  "length (seq_canA (fold (bp_seq_pos msa rposA i) [0..<m] acc)) = length (seq_canA acc)"
  "length (pos_canA (fold (bp_seq_pos msa rposA i) [0..<m] acc)) = length (pos_canA acc)"
  by (induction m; simp add: bp_seq_pos_length)+

lemma bp_seq_pos_fold_covA:
  "p < length (covA acc) \<Longrightarrow>
   covA (fold (bp_seq_pos msa rposA i) [0..<m] acc) ! p =
     covA acc ! p + (if p < m then bp_cov_row msa rposA i p else 0)"
  by (induction m) (auto simp: bp_seq_pos_covA bp_seq_pos_fold_length)

lemma bp_seq_pos_fold_cov_cntA:
  "p < length (cov_cntA acc) \<Longrightarrow>
   cov_cntA (fold (bp_seq_pos msa rposA i) [0..<m] acc) ! p =
     cov_cntA acc ! p + (if p < m then bp_cnt_row msa rposA i p else 0)"
  by (induction m) (auto simp: bp_seq_pos_cov_cntA bp_seq_pos_fold_length)

lemma bp_seq_pos_fold_pos_canA:
  "p < length (pos_canA acc) \<Longrightarrow>
   pos_canA (fold (bp_seq_pos msa rposA i) [0..<m] acc) ! p =
     pos_canA acc ! p
     + (if p < m \<and> bp_enters msa rposA i p \<and> bp_canon msa rposA i p then 1 else 0)"
  by (induction m) (auto simp: bp_seq_pos_pos_canA bp_seq_pos_fold_length less_Suc_eq)

lemma bp_seq_pos_fold_seq_canA:
  "k < length (seq_canA acc) \<Longrightarrow>
   seq_canA (fold (bp_seq_pos msa rposA i) [0..<m] acc) ! k =
     seq_canA acc ! k
     + (if k = i
        then int (length (filter (\<lambda>p. bp_enters msa rposA i p \<and> bp_canon msa rposA i p) [0..<m]))
        else 0)"
  by (induction m) (auto simp: bp_seq_pos_seq_canA bp_seq_pos_fold_length)

lemma bp_seq_fold_length:
  "length (covA (fold (bp_seq msa rposA) [0..<n] acc)) = length (covA acc)"
  "length (cov_cntA (fold (bp_seq msa rposA) [0..<n] acc)) = length (cov_cntA acc)"
  "length (seq_canA (fold (bp_seq msa rposA) [0..<n] acc)) = length (seq_canA acc)"
  "length (pos_canA (fold (bp_seq msa rposA) [0..<n] acc)) = length (pos_canA acc)"
  by (induction n; simp add: bp_seq_def bp_seq_pos_fold_length)+

lemma bp_seq_fold_covA:
  "p < length (covA acc) \<Longrightarrow> p < nat (alen msa) \<Longrightarrow>
   covA (fold (bp_seq msa rposA) [0..<n] acc) ! p =
     covA acc ! p + (\<Sum>i = 0..<n. bp_cov_row msa rposA i p)"
  by (induction n) (auto simp: bp_seq_def bp_seq_pos_fold_covA bp_seq_fold_length)

lemma bp_seq_fold_cov_cntA:
  "p < length (cov_cntA acc) \<Longrightarrow> p < nat (alen msa) \<Longrightarrow>
   cov_cntA (fold (bp_seq msa rposA) [0..<n] acc) ! p =
     cov_cntA acc ! p + (\<Sum>i = 0..<n. bp_cnt_row msa rposA i p)"
  by (induction n) (auto simp: bp_seq_def bp_seq_pos_fold_cov_cntA bp_seq_fold_length)

lemma bp_seq_fold_pos_canA:
  "p < length (pos_canA acc) \<Longrightarrow> p < nat (alen msa) \<Longrightarrow>
   pos_canA (fold (bp_seq msa rposA) [0..<n] acc) ! p =
     pos_canA acc ! p
     + int (length (filter (\<lambda>i. bp_enters msa rposA i p \<and> bp_canon msa rposA i p) [0..<n]))"
  by (induction n) (auto simp: bp_seq_def bp_seq_pos_fold_pos_canA bp_seq_fold_length)

lemma bp_seq_fold_seq_canA:
  "k < length (seq_canA acc) \<Longrightarrow>
   seq_canA (fold (bp_seq msa rposA) [0..<n] acc) ! k =
     seq_canA acc ! k
     + (if k < n
        then int (length (filter (\<lambda>p. bp_enters msa rposA k p \<and> bp_canon msa rposA k p)
                    [0..<nat (alen msa)]))
        else 0)"
  by (induction n) (auto simp: bp_seq_def bp_seq_pos_fold_seq_canA bp_seq_fold_length)


lemma bp_accumulate_length:
  "length (covA (bp_accumulate msa rposA)) = nat (alen msa)"
  "length (cov_cntA (bp_accumulate msa rposA)) = nat (alen msa)"
  "length (pos_canA (bp_accumulate msa rposA)) = nat (alen msa)"
  "length (seq_canA (bp_accumulate msa rposA)) = nat (nseq msa)"
  by (simp_all add: bp_accumulate_def bp_seq_fold_length)

lemma bp_accumulate_covA:
  "p < nat (alen msa) \<Longrightarrow>
   covA (bp_accumulate msa rposA) ! p = (\<Sum>i = 0..<nat (nseq msa). bp_cov_row msa rposA i p)"
  by (simp add: bp_accumulate_def bp_seq_fold_covA)

lemma bp_accumulate_cov_cntA:
  "p < nat (alen msa) \<Longrightarrow>
   cov_cntA (bp_accumulate msa rposA) ! p = (\<Sum>i = 0..<nat (nseq msa). bp_cnt_row msa rposA i p)"
  by (simp add: bp_accumulate_def bp_seq_fold_cov_cntA)

lemma bp_accumulate_pos_canA:
  "p < nat (alen msa) \<Longrightarrow>
   pos_canA (bp_accumulate msa rposA) ! p =
     int (length (filter (\<lambda>i. bp_enters msa rposA i p \<and> bp_canon msa rposA i p)
            [0..<nat (nseq msa)]))"
  by (simp add: bp_accumulate_def bp_seq_fold_pos_canA)

lemma bp_accumulate_seq_canA:
  "k < nat (nseq msa) \<Longrightarrow>
   seq_canA (bp_accumulate msa rposA) ! k =
     int (length (filter (\<lambda>p. bp_enters msa rposA k p \<and> bp_canon msa rposA k p)
            [0..<nat (alen msa)]))"
  by (simp add: bp_accumulate_def bp_seq_fold_seq_canA)

lemma bp_accumulate_unpaired:
  "p < nat (alen msa) \<Longrightarrow> rposA ! p = - 1 \<Longrightarrow>
   covA (bp_accumulate msa rposA) ! p = 0 \<and> cov_cntA (bp_accumulate msa rposA) ! p = 0"
  by (simp add: bp_accumulate_covA bp_accumulate_cov_cntA bp_cov_row_def bp_cnt_row_def
      bp_enters_def)

lemma sum_list_retained:
  fixes xs :: "real list"
  assumes "length xs = n" and "\<And>p. p < n \<Longrightarrow> \<not> P p \<Longrightarrow> xs ! p = 0"
  shows "sum_list xs = (\<Sum>p \<in> {p. p < n \<and> P p}. xs ! p)"
proof -
  have "sum_list xs = (\<Sum>p = 0..<n. xs ! p)"
    using assms(1) by (simp add: sum_list_sum_nth)
  also have "\<dots> = (\<Sum>p \<in> {p. p < n \<and> P p}. xs ! p)"
    by (rule sum.mono_neutral_right) (auto simp: assms(2))
  finally show ?thesis .
qed

lemma locate_bp_fold:
  "fold (locate_bp ct) [0..<m] (rp, nb) = (rp', nb') \<Longrightarrow>
   length rp' = length rp
   \<and> nb' = nb + int (length (filter (\<lambda>p. ct ! (p + 1) > int (p + 1)) [0..<m]))
   \<and> (\<forall>p < length rp. rp' ! p =
         (if p < m \<and> ct ! (p + 1) > int (p + 1) then ct ! (p + 1) - 1 else rp ! p))"
proof (induction m arbitrary: rp' nb')
  case 0
  then show ?case by simp
next
  case (Suc m)
  obtain rp1 nb1 where f: "fold (locate_bp ct) [0..<m] (rp, nb) = (rp1, nb1)"
    by (cases "fold (locate_bp ct) [0..<m] (rp, nb)")
  from Suc.prems f have step: "locate_bp ct m (rp1, nb1) = (rp', nb')"
    by simp
  have "rp' = (if ct ! (m + 1) > int (m + 1) then rp1[m := ct ! (m + 1) - 1] else rp1)"
    and "nb' = (if ct ! (m + 1) > int (m + 1) then nb1 + 1 else nb1)"
    using step by (auto simp: locate_bp_def split: if_splits)
  moreover have "xs[m := v] ! p = (if p = m \<and> m < length xs then v else xs ! p)"
    for xs :: "int list" and v p
    by (cases "m < length xs") (auto simp: list_update_beyond)
  ultimately show ?case
    using Suc.IH [OF f] by (auto simp: less_Suc_eq)
qed

lemma locate_bps_eq:
  assumes "locate_bps n ct = (rposA, nbp)"
  shows "length rposA = nat n"
    and "nbp = int (length (filter (\<lambda>p. ct ! (p + 1) > int (p + 1)) [0..<nat n]))"
    and "p < nat n \<Longrightarrow>
         rposA ! p = (if ct ! (p + 1) > int (p + 1) then ct ! (p + 1) - 1 else - 1)"
  using locate_bp_fold [OF assms [unfolded locate_bps_def]] by simp_all

lemma locate_bps_retained:
  assumes "locate_bps n ct = (rposA, nbp)" and "p < nat n"
  shows "rposA ! p \<noteq> - 1 \<longleftrightarrow> ct ! (p + 1) > int (p + 1)"
  using locate_bps_eq(3) [OF assms] by auto

lemma locate_bps_nbp:
  assumes "locate_bps n ct = (rposA, nbp)"
  shows "nbp = int (length (filter (\<lambda>p. rposA ! p \<noteq> - 1) [0..<nat n]))"
proof -
  have "filter (\<lambda>p. rposA ! p \<noteq> - 1) [0..<nat n]
        = filter (\<lambda>p. ct ! (p + 1) > int (p + 1)) [0..<nat n]"
    by (rule filter_cong) (auto simp: locate_bps_retained [OF assms])
  then show ?thesis using locate_bps_eq(2) [OF assms] by simp
qed

lemma bp_normalize_fold:
  "length (fold (bp_normalize rposA cnt) [0..<m] cov) = length cov"
  "p < length cov \<Longrightarrow>
   fold (bp_normalize rposA cnt) [0..<m] cov ! p =
     (if p < m \<and> rposA ! p \<noteq> - 1 \<and> \<bar>cnt ! p\<bar> > 1 / 10 ^ 10
      then cov ! p / cnt ! p else cov ! p)"
proof -
  show len: "length (fold (bp_normalize rposA cnt) [0..<m] cov) = length cov" for m
    by (induction m) (simp_all add: bp_normalize_def)
  show "p < length cov \<Longrightarrow>
   fold (bp_normalize rposA cnt) [0..<m] cov ! p =
     (if p < m \<and> rposA ! p \<noteq> - 1 \<and> \<bar>cnt ! p\<bar> > 1 / 10 ^ 10
      then cov ! p / cnt ! p else cov ! p)"
    by (induction m) (auto simp: bp_normalize_def len nth_list_update less_Suc_eq)
qed


text \<open>
  C2, as the code has it: at a retained pair of columns \<open>apos\<close>, \<open>rposA ! apos\<close> a
  sequence enters canonical counting and the covariation sums whenever at least one half
  of its pair is not the gap code (only a pair of two gaps is skipped); it is then
  compared with every later sequence \<open>j\<close>, which is not tested for gaps; the
  contribution is the distance times \<open>wgt ! i + wgt ! j\<close> when both pairs are canonical
  and minus that otherwise. The four arrays the main loop leaves are these sums and
  counts.
\<close>

theorem bp_accumulate_closed_form:
  assumes "wf_msa msa" and "wf_rposA msa rposA"
    and "apos < nat (alen msa)" and "i < nat (nseq msa)"
  shows "covA (bp_accumulate msa rposA) ! apos =
           (\<Sum>k = 0..<nat (nseq msa).
              if bp_enters msa rposA k apos
              then \<Sum>j = k + 1..<nat (nseq msa). bp_contrib msa k apos (nat (rposA ! apos)) j
              else 0)
       \<and> cov_cntA (bp_accumulate msa rposA) ! apos =
           (\<Sum>k = 0..<nat (nseq msa).
              if bp_enters msa rposA k apos
              then \<Sum>j = k + 1..<nat (nseq msa). wgt msa ! k + wgt msa ! j
              else 0)
       \<and> pos_canA (bp_accumulate msa rposA) ! apos =
           int (length (filter (\<lambda>k. bp_enters msa rposA k apos \<and> bp_canon msa rposA k apos)
                  [0..<nat (nseq msa)]))
       \<and> seq_canA (bp_accumulate msa rposA) ! i =
           int (length (filter (\<lambda>p. bp_enters msa rposA i p \<and> bp_canon msa rposA i p)
                  [0..<nat (alen msa)]))
       \<and> bp_contrib msa i apos rpos j =
           (if c_bp_is_canonical (ax msa ! i ! (apos + 1)) (ax msa ! i ! (rpos + 1))
               \<and> c_bp_is_canonical (ax msa ! j ! (apos + 1)) (ax msa ! j ! (rpos + 1))
            then real_of_int (c_bp_dist (ax msa ! i ! (apos + 1)) (ax msa ! i ! (rpos + 1))
                                (ax msa ! j ! (apos + 1)) (ax msa ! j ! (rpos + 1)))
                 * (wgt msa ! i + wgt msa ! j)
            else - (real_of_int (c_bp_dist (ax msa ! i ! (apos + 1)) (ax msa ! i ! (rpos + 1))
                                   (ax msa ! j ! (apos + 1)) (ax msa ! j ! (rpos + 1)))
                    * (wgt msa ! i + wgt msa ! j)))"
proof -
  have "covA (bp_accumulate msa rposA) ! apos =
           (\<Sum>k = 0..<nat (nseq msa). bp_cov_row msa rposA k apos)"
    using assms(3) by (rule bp_accumulate_covA)
  moreover have "cov_cntA (bp_accumulate msa rposA) ! apos =
           (\<Sum>k = 0..<nat (nseq msa). bp_cnt_row msa rposA k apos)"
    using assms(3) by (rule bp_accumulate_cov_cntA)
  moreover note bp_accumulate_pos_canA [OF assms(3), of rposA]
    bp_accumulate_seq_canA [OF assms(4), of rposA]
  moreover have "bp_contrib msa i apos rpos j =
           (if c_bp_is_canonical (ax msa ! i ! (apos + 1)) (ax msa ! i ! (rpos + 1))
               \<and> c_bp_is_canonical (ax msa ! j ! (apos + 1)) (ax msa ! j ! (rpos + 1))
            then real_of_int (c_bp_dist (ax msa ! i ! (apos + 1)) (ax msa ! i ! (rpos + 1))
                                (ax msa ! j ! (apos + 1)) (ax msa ! j ! (rpos + 1)))
                 * (wgt msa ! i + wgt msa ! j)
            else - (real_of_int (c_bp_dist (ax msa ! i ! (apos + 1)) (ax msa ! i ! (rpos + 1))
                                   (ax msa ! j ! (apos + 1)) (ax msa ! j ! (rpos + 1)))
                    * (wgt msa ! i + wgt msa ! j)))"
    by (simp add: bp_contrib_def Let_def)
  ultimately show ?thesis
    unfolding bp_cov_row_def bp_cnt_row_def by simp
qed

theorem bp_accumulate_closed_form_witness:
  "wf_msa msa_gap \<and> wf_rposA msa_gap [1, - 1]
   \<and> bp_enters msa_gap [1, - 1] 0 0
   \<and> covA (bp_accumulate msa_gap [1, - 1]) ! 0 = - 2
   \<and> cov_cntA (bp_accumulate msa_gap [1, - 1]) ! 0 = 2
   \<and> pos_canA (bp_accumulate msa_gap [1, - 1]) ! 0 = 1
   \<and> seq_canA (bp_accumulate msa_gap [1, - 1]) ! 1 = 1"
proof -
  have h1: "wf_msa msa_gap" and h2: "wf_rposA msa_gap [1, - 1]"
    and h3: "0 < nat (alen msa_gap)" and h4: "1 < nat (nseq msa_gap)"
    by code_simp+
  have e: "bp_enters msa_gap [1, - 1] 0 0"
    by code_simp
  have v1: "(\<Sum>k = 0..<nat (nseq msa_gap).
              if bp_enters msa_gap [1, - 1] k 0
              then \<Sum>j = k + 1..<nat (nseq msa_gap).
                     bp_contrib msa_gap k 0 (nat ([1, - 1] ! 0)) j
              else 0) = - 2"
    by code_simp
  have v2: "(\<Sum>k = 0..<nat (nseq msa_gap).
              if bp_enters msa_gap [1, - 1] k 0
              then \<Sum>j = k + 1..<nat (nseq msa_gap). wgt msa_gap ! k + wgt msa_gap ! j
              else 0) = 2"
    by code_simp
  have v3: "int (length (filter (\<lambda>k. bp_enters msa_gap [1, - 1] k 0 \<and> bp_canon msa_gap [1, - 1] k 0)
                  [0..<nat (nseq msa_gap)])) = 1"
    by code_simp
  have v4: "int (length (filter (\<lambda>p. bp_enters msa_gap [1, - 1] 1 p \<and> bp_canon msa_gap [1, - 1] 1 p)
                  [0..<nat (alen msa_gap)])) = 1"
    by code_simp
  from bp_accumulate_closed_form [OF h1 h2 h3 h4, of 1 1]
  show ?thesis
    unfolding v1 v2 v3 v4 using h1 h2 e by blast
qed

text \<open>
  C2 as stated (a sequence takes part only when both halves are not gaps) fails on
  \<open>msa_gap\<close>: its first sequence has a gap in the right half of the pair and still
  contributes \<open>- 2\<close> to the score and \<open>2\<close> to the weight sum of the pair, where the
  sums worded by the specification are 0.
\<close>

theorem bp_accumulate_gap_half_counterexample:
  "wf_msa msa_gap
   \<and> locate_bps (alen msa_gap) [0, 2, 1] = ([1, - 1], 1)
   \<and> ax msa_gap ! 0 ! 2 = abc_K (abc msa_gap)
   \<and> covA (bp_accumulate msa_gap [1, - 1]) ! 0 = - 2
   \<and> cov_cntA (bp_accumulate msa_gap [1, - 1]) ! 0 = 2
   \<and> spec_covA msa_gap [1, - 1] 0 = 0
   \<and> spec_cov_cntA msa_gap [1, - 1] 0 = 0
   \<and> covA (bp_accumulate msa_gap [1, - 1]) ! 0 \<noteq> spec_covA msa_gap [1, - 1] 0"
  by code_simp

text \<open>
  C4: the mean covariation is one ratio, the sum over the retained positions of the
  accumulated scores over the sum over the retained positions of the accumulated weight
  sums, both as the main loop leaves them; the score returned for a position is its
  accumulated score over its own weight sum when that sum exceeds 1e-10 in absolute
  value, and the accumulated score itself otherwise; with no retained pair there is no
  retained position and the mean is 0.
\<close>

theorem c_rfam_bp_stats_mean_cov:
  assumes "c_rfam_bp_stats lib msa = Inr r"
  shows "ret_mean_cov r =
           (if ret_nbp r = 0 then Some 0
            else ddiv (\<Sum>p \<in> {p. p < nat (alen msa) \<and> ret_rposA r ! p \<noteq> - 1}.
                         covA (bp_accumulate msa (ret_rposA r)) ! p)
                      (\<Sum>p \<in> {p. p < nat (alen msa) \<and> ret_rposA r ! p \<noteq> - 1}.
                         cov_cntA (bp_accumulate msa (ret_rposA r)) ! p))
         \<and> (\<forall>p < nat (alen msa).
               ret_covA r ! p =
                 (if ret_rposA r ! p \<noteq> - 1
                     \<and> \<bar>cov_cntA (bp_accumulate msa (ret_rposA r)) ! p\<bar> > 1 / 10 ^ 10
                  then covA (bp_accumulate msa (ret_rposA r)) ! p
                       / cov_cntA (bp_accumulate msa (ret_rposA r)) ! p
                  else covA (bp_accumulate msa (ret_rposA r)) ! p))
         \<and> ret_nbp r = int (length (filter (\<lambda>p. ret_rposA r ! p \<noteq> - 1) [0..<nat (alen msa)]))
         \<and> (ret_nbp r = 0 \<longrightarrow>
              filter (\<lambda>p. ret_rposA r ! p \<noteq> - 1) [0..<nat (alen msa)] = []
              \<and> ret_mean_cov r = Some 0)"
proof -
  from assms obtain ct where ct: "esl_wuss2ct lib (ss_cons msa) (alen msa) = Some ct"
    by (auto simp: c_rfam_bp_stats_def split: option.splits)
  obtain rposA nbp where loc: "locate_bps (alen msa) ct = (rposA, nbp)"
    by (cases "locate_bps (alen msa) ct")
  let ?acc = "bp_accumulate msa rposA"
  from assms ct loc have r: "r = \<lparr>ret_nbp = nbp, ret_rposA = rposA,
      ret_seq_canA = seq_canA ?acc, ret_pos_canA = pos_canA ?acc,
      ret_covA = fold (bp_normalize rposA (cov_cntA ?acc)) [0..<nat (alen msa)] (covA ?acc),
      ret_mean_cov = (if nbp = 0 then Some 0
                      else ddiv (sum_list (covA ?acc)) (sum_list (cov_cntA ?acc)))\<rparr>"
    by (simp add: c_rfam_bp_stats_def Let_def)
  have s1: "sum_list (covA ?acc)
      = (\<Sum>p \<in> {p. p < nat (alen msa) \<and> rposA ! p \<noteq> - 1}. covA ?acc ! p)"
    by (rule sum_list_retained) (simp_all add: bp_accumulate_length bp_accumulate_unpaired)
  have s2: "sum_list (cov_cntA ?acc)
      = (\<Sum>p \<in> {p. p < nat (alen msa) \<and> rposA ! p \<noteq> - 1}. cov_cntA ?acc ! p)"
    by (rule sum_list_retained) (simp_all add: bp_accumulate_length bp_accumulate_unpaired)
  have c1: "ret_mean_cov r =
           (if ret_nbp r = 0 then Some 0
            else ddiv (\<Sum>p \<in> {p. p < nat (alen msa) \<and> ret_rposA r ! p \<noteq> - 1}.
                         covA (bp_accumulate msa (ret_rposA r)) ! p)
                      (\<Sum>p \<in> {p. p < nat (alen msa) \<and> ret_rposA r ! p \<noteq> - 1}.
                         cov_cntA (bp_accumulate msa (ret_rposA r)) ! p))"
    by (simp add: r s1 s2)
  have c2: "\<forall>p < nat (alen msa).
               ret_covA r ! p =
                 (if ret_rposA r ! p \<noteq> - 1
                     \<and> \<bar>cov_cntA (bp_accumulate msa (ret_rposA r)) ! p\<bar> > 1 / 10 ^ 10
                  then covA (bp_accumulate msa (ret_rposA r)) ! p
                       / cov_cntA (bp_accumulate msa (ret_rposA r)) ! p
                  else covA (bp_accumulate msa (ret_rposA r)) ! p)"
    by (simp add: r bp_normalize_fold bp_accumulate_length)
  have c3: "ret_nbp r = int (length (filter (\<lambda>p. ret_rposA r ! p \<noteq> - 1) [0..<nat (alen msa)]))"
    using locate_bps_nbp [OF loc] by (simp add: r)
  have c4: "ret_nbp r = 0 \<longrightarrow>
              filter (\<lambda>p. ret_rposA r ! p \<noteq> - 1) [0..<nat (alen msa)] = []
              \<and> ret_mean_cov r = Some 0"
    using c3 by (simp add: r)
  from c1 c2 c3 c4 show ?thesis by blast
qed

theorem c_rfam_bp_stats_mean_cov_witness:
  "c_rfam_bp_stats lib_pair msa_gap =
     Inr \<lparr>ret_nbp = 1, ret_rposA = [1, - 1], ret_seq_canA = [0, 1], ret_pos_canA = [1, 0],
          ret_covA = [- 1, 0], ret_mean_cov = Some (- 1)\<rparr>
   \<and> ddiv (\<Sum>p \<in> {p. p < nat (alen msa_gap) \<and> [1, - 1] ! p \<noteq> (- 1 :: int)}.
              covA (bp_accumulate msa_gap [1, - 1]) ! p)
           (\<Sum>p \<in> {p. p < nat (alen msa_gap) \<and> [1, - 1] ! p \<noteq> (- 1 :: int)}.
              cov_cntA (bp_accumulate msa_gap [1, - 1]) ! p) = Some (- 1)"
proof -
  have h: "c_rfam_bp_stats lib_pair msa_gap =
     Inr \<lparr>ret_nbp = 1, ret_rposA = [1, - 1], ret_seq_canA = [0, 1], ret_pos_canA = [1, 0],
          ret_covA = [- 1, 0], ret_mean_cov = Some (- 1)\<rparr>"
    by code_simp
  from c_rfam_bp_stats_mean_cov [OF h] show ?thesis
    using h by simp
qed

subsection \<open>The loops of the composition statistics\<close>














subsection \<open>Pairwise identity statistics\<close>

lemma pid_pair_fold:
  "\<forall>j \<in> set js. \<exists>p. msa_pairid lib msa i j = Some p \<Longrightarrow>
   \<exists>st'. fold_err (pid_pair lib msa i) js st = Inr st'
     \<and> pid_mean st' = pid_mean st + sum_list (map (pidv lib msa i) js)
     \<and> pid_min st' \<le> pid_min st \<and> pid_max st \<le> pid_max st'
     \<and> (\<forall>j \<in> set js. pid_min st' \<le> pidv lib msa i j \<and> pidv lib msa i j \<le> pid_max st')
     \<and> (pid_min st' = pid_min st \<or> (\<exists>j \<in> set js. pid_min st' = pidv lib msa i j))
     \<and> (pid_max st' = pid_max st \<or> (\<exists>j \<in> set js. pid_max st' = pidv lib msa i j))"
proof (induction js arbitrary: st)
  case Nil
  then show ?case by simp
next
  case (Cons j js)
  from Cons.prems obtain p where p: "msa_pairid lib msa i j = Some p"
    by auto
  let ?st1 = "\<lparr>pid_mean = pid_mean st + p, pid_min = min (pid_min st) p,
               pid_max = max (pid_max st) p\<rparr>"
  have s1: "pid_pair lib msa i j st = Inr ?st1"
    by (simp add: pid_pair_def p)
  have v: "pidv lib msa i j = p"
    by (simp add: pidv_def p)
  from Cons.prems have "\<forall>j \<in> set js. \<exists>p. msa_pairid lib msa i j = Some p"
    by simp
  from Cons.IH [OF this, of ?st1] obtain st' where
    f: "fold_err (pid_pair lib msa i) js ?st1 = Inr st'"
    and m: "pid_mean st' = pid_mean ?st1 + sum_list (map (pidv lib msa i) js)"
    and b: "pid_min st' \<le> pid_min ?st1" "pid_max ?st1 \<le> pid_max st'"
    and a: "\<forall>j \<in> set js. pid_min st' \<le> pidv lib msa i j \<and> pidv lib msa i j \<le> pid_max st'"
    and e1: "pid_min st' = pid_min ?st1 \<or> (\<exists>j \<in> set js. pid_min st' = pidv lib msa i j)"
    and e2: "pid_max st' = pid_max ?st1 \<or> (\<exists>j \<in> set js. pid_max st' = pidv lib msa i j)"
    by blast
  have "fold_err (pid_pair lib msa i) (j # js) st = Inr st'"
    using s1 f by simp
  moreover have "pid_mean st' = pid_mean st + sum_list (map (pidv lib msa i) (j # js))"
    using m v by simp
  moreover have "pid_min st' \<le> pid_min st" "pid_max st \<le> pid_max st'"
    using b by simp_all
  moreover have "\<forall>k \<in> set (j # js). pid_min st' \<le> pidv lib msa i k \<and> pidv lib msa i k \<le> pid_max st'"
    using a b v by auto
  moreover have "pid_min st' = pid_min st \<or> (\<exists>k \<in> set (j # js). pid_min st' = pidv lib msa i k)"
    using e1 v by (auto simp: min_def split: if_splits)
  moreover have "pid_max st' = pid_max st \<or> (\<exists>k \<in> set (j # js). pid_max st' = pidv lib msa i k)"
    using e2 v by (auto simp: max_def split: if_splits)
  ultimately show ?case by blast
qed

lemma pid_seq_fold:
  "\<forall>i \<in> set js. \<forall>j \<in> {i + 1..<nat (nseq msa)}. \<exists>p. msa_pairid lib msa i j = Some p \<Longrightarrow>
   \<exists>st'. fold_err (pid_seq lib msa) js st = Inr st'
     \<and> pid_mean st' = pid_mean st + sum_list (map (pid_row_sum lib msa) js)
     \<and> pid_min st' \<le> pid_min st \<and> pid_max st \<le> pid_max st'
     \<and> (\<forall>i \<in> set js. \<forall>j \<in> {i + 1..<nat (nseq msa)}.
           pid_min st' \<le> pidv lib msa i j \<and> pidv lib msa i j \<le> pid_max st')
     \<and> (pid_min st' = pid_min st
          \<or> (\<exists>i \<in> set js. \<exists>j \<in> {i + 1..<nat (nseq msa)}. pid_min st' = pidv lib msa i j))
     \<and> (pid_max st' = pid_max st
          \<or> (\<exists>i \<in> set js. \<exists>j \<in> {i + 1..<nat (nseq msa)}. pid_max st' = pidv lib msa i j))"
proof (induction js arbitrary: st)
  case Nil
  then show ?case by simp
next
  case (Cons i js)
  let ?n = "nat (nseq msa)"
  from Cons.prems have "\<forall>j \<in> set [i + 1..<?n]. \<exists>p. msa_pairid lib msa i j = Some p"
    by simp
  from pid_pair_fold [OF this, of st] obtain st1 where
    f1: "pid_seq lib msa i st = Inr st1"
    and m1: "pid_mean st1 = pid_mean st + pid_row_sum lib msa i"
    and b1: "pid_min st1 \<le> pid_min st" "pid_max st \<le> pid_max st1"
    and a1: "\<forall>j \<in> {i + 1..<?n}. pid_min st1 \<le> pidv lib msa i j \<and> pidv lib msa i j \<le> pid_max st1"
    and e1: "pid_min st1 = pid_min st \<or> (\<exists>j \<in> {i + 1..<?n}. pid_min st1 = pidv lib msa i j)"
    and e2: "pid_max st1 = pid_max st \<or> (\<exists>j \<in> {i + 1..<?n}. pid_max st1 = pidv lib msa i j)"
    unfolding pid_seq_def pid_row_sum_def
    by (auto simp: interv_sum_list_conv_sum_set_nat)
  from Cons.prems have
    "\<forall>i \<in> set js. \<forall>j \<in> {i + 1..<?n}. \<exists>p. msa_pairid lib msa i j = Some p"
    by simp
  from Cons.IH [OF this, of st1] obtain st' where
    f: "fold_err (pid_seq lib msa) js st1 = Inr st'"
    and m: "pid_mean st' = pid_mean st1 + sum_list (map (pid_row_sum lib msa) js)"
    and b: "pid_min st' \<le> pid_min st1" "pid_max st1 \<le> pid_max st'"
    and a: "\<forall>i \<in> set js. \<forall>j \<in> {i + 1..<?n}.
           pid_min st' \<le> pidv lib msa i j \<and> pidv lib msa i j \<le> pid_max st'"
    and e3: "pid_min st' = pid_min st1
          \<or> (\<exists>i \<in> set js. \<exists>j \<in> {i + 1..<?n}. pid_min st' = pidv lib msa i j)"
    and e4: "pid_max st' = pid_max st1
          \<or> (\<exists>i \<in> set js. \<exists>j \<in> {i + 1..<?n}. pid_max st' = pidv lib msa i j)"
    by blast
  have "fold_err (pid_seq lib msa) (i # js) st = Inr st'"
    using f1 f by simp
  moreover have "pid_mean st' = pid_mean st + sum_list (map (pid_row_sum lib msa) (i # js))"
    using m m1 by simp
  moreover have "pid_min st' \<le> pid_min st" "pid_max st \<le> pid_max st'"
    using b b1 by simp_all
  moreover have "\<forall>k \<in> set (i # js). \<forall>j \<in> {k + 1..<?n}.
           pid_min st' \<le> pidv lib msa k j \<and> pidv lib msa k j \<le> pid_max st'"
  proof (intro ballI)
    fix k j assume k: "k \<in> set (i # js)" and j: "j \<in> {k + 1..<?n}"
    show "pid_min st' \<le> pidv lib msa k j \<and> pidv lib msa k j \<le> pid_max st'"
    proof (cases "k \<in> set js")
      case True
      then show ?thesis using a j by blast
    next
      case False
      then have "k = i" using k by simp
      then have "pid_min st1 \<le> pidv lib msa k j \<and> pidv lib msa k j \<le> pid_max st1"
        using a1 j by blast
      then show ?thesis using b by linarith
    qed
  qed
  moreover have "pid_min st' = pid_min st
          \<or> (\<exists>k \<in> set (i # js). \<exists>j \<in> {k + 1..<?n}. pid_min st' = pidv lib msa k j)"
    using e1 e3 by (metis list.set_intros(1) list.set_intros(2))
  moreover have "pid_max st' = pid_max st
          \<or> (\<exists>k \<in> set (i # js). \<exists>j \<in> {k + 1..<?n}. pid_max st' = pidv lib msa k j)"
    using e2 e4 by (metis list.set_intros(1) list.set_intros(2))
  ultimately show ?case by blast
qed

lemma pairs_count:
  "(\<Sum>i = 0..<n. real (n - Suc i)) = real n * (real n - 1) / 2"
proof (induction n)
  case 0
  then show ?case by simp
next
  case (Suc n)
  have "(\<Sum>i = 0..<Suc n. real (Suc n - Suc i)) = (\<Sum>i = 0..<n. real (n - i))"
    by simp
  also have "\<dots> = (\<Sum>i = 0..<n. real (n - Suc i) + 1)"
    by (rule sum.cong) (auto simp: Suc_diff_Suc)
  also have "\<dots> = (\<Sum>i = 0..<n. real (n - Suc i)) + real n"
    unfolding sum.distrib by simp
  also have "\<dots> = real (Suc n) * (real (Suc n) - 1) / 2"
    using Suc.IH by (simp add: field_simps)
  finally show ?case .
qed

lemma int32_id: "- (2 ^ 31) \<le> x \<Longrightarrow> x < 2 ^ 31 \<Longrightarrow> int32 x = x"
  unfolding int32_def by (subst mod_pos_pos_trivial) simp_all

lemma pid_npairs_exact:
  assumes "0 \<le> n" and "n \<le> 46341"
  shows "real_of_int (pid_npairs n) = real (nat n) * (real (nat n) - 1) / 2"
proof -
  have a: "int32 (n - 1) = n - 1"
    using assms by (intro int32_id) simp_all
  have nn: "0 \<le> n * (n - 1)"
  proof (cases "n = 0")
    case True
    then show ?thesis by simp
  next
    case False
    then have "0 \<le> n - 1" using assms by simp
    then show ?thesis using assms by simp
  qed
  have "n * (n - 1) \<le> 46341 * 46340"
  proof (cases "n = 0")
    case True
    then show ?thesis by simp
  next
    case False
    then have "0 \<le> n - 1" and "n - 1 \<le> 46340" using assms by simp_all
    then show ?thesis using assms by (intro mult_mono) simp_all
  qed
  then have ub: "n * (n - 1) < 2 ^ 31"
    by simp
  have b: "int32 (n * (n - 1)) = n * (n - 1)"
    using nn ub by (intro int32_id) simp_all
  have "2 dvd n * (n - 1)" by simp
  from real_of_int_div [OF this]
  have "real_of_int (n * (n - 1) div 2) = real_of_int (n * (n - 1)) / 2"
    by simp
  moreover have "pid_npairs n = n * (n - 1) div 2"
    unfolding pid_npairs_def a b c_div_def using nn by simp
  ultimately have "real_of_int (pid_npairs n) = real_of_int n * (real_of_int n - 1) / 2"
    by simp
  then show ?thesis using assms(1) by simp
qed

lemma pid_stats_result:
  assumes "\<forall>i j. i < j \<and> j < nat (nseq msa) \<longrightarrow> (\<exists>p. msa_pairid lib msa i j = Some p)"
  shows "\<exists>mn mx. c_rfam_pid_stats lib msa =
           Inr \<lparr>ret_pid_mean = ddiv (\<Sum>i = 0..<nat (nseq msa). pid_row_sum lib msa i)
                                  (real_of_int (pid_npairs (nseq msa))),
                ret_pid_min = mn, ret_pid_max = mx\<rparr>
         \<and> mn \<le> 1 \<and> 0 \<le> mx
         \<and> (\<forall>i j. i < j \<and> j < nat (nseq msa) \<longrightarrow>
               mn \<le> pidv lib msa i j \<and> pidv lib msa i j \<le> mx)
         \<and> (mn = 1 \<or> (\<exists>i j. i < j \<and> j < nat (nseq msa) \<and> mn = pidv lib msa i j))
         \<and> (mx = 0 \<or> (\<exists>i j. i < j \<and> j < nat (nseq msa) \<and> mx = pidv lib msa i j))"
proof -
  let ?n = "nat (nseq msa)"
  let ?st = "\<lparr>pid_mean = 0, pid_min = 1, pid_max = 0\<rparr>"
  have "\<forall>i \<in> set [0..<?n]. \<forall>j \<in> {i + 1..<?n}. \<exists>p. msa_pairid lib msa i j = Some p"
    using assms by simp
  from pid_seq_fold [OF this, of ?st] obtain st' where
    f: "fold_err (pid_seq lib msa) [0..<?n] ?st = Inr st'"
    and m: "pid_mean st' = (\<Sum>i = 0..<?n. pid_row_sum lib msa i)"
    and b: "pid_min st' \<le> 1" "0 \<le> pid_max st'"
    and a: "\<forall>i \<in> set [0..<?n]. \<forall>j \<in> {i + 1..<?n}.
           pid_min st' \<le> pidv lib msa i j \<and> pidv lib msa i j \<le> pid_max st'"
    and e1: "pid_min st' = 1
          \<or> (\<exists>i \<in> set [0..<?n]. \<exists>j \<in> {i + 1..<?n}. pid_min st' = pidv lib msa i j)"
    and e2: "pid_max st' = 0
          \<or> (\<exists>i \<in> set [0..<?n]. \<exists>j \<in> {i + 1..<?n}. pid_max st' = pidv lib msa i j)"
    by (auto simp: interv_sum_list_conv_sum_set_nat)
  have "c_rfam_pid_stats lib msa =
           Inr \<lparr>ret_pid_mean = ddiv (\<Sum>i = 0..<?n. pid_row_sum lib msa i)
                                  (real_of_int (pid_npairs (nseq msa))),
                ret_pid_min = pid_min st', ret_pid_max = pid_max st'\<rparr>"
    by (simp add: c_rfam_pid_stats_def f m)
  moreover have "\<forall>i j. i < j \<and> j < ?n \<longrightarrow>
               pid_min st' \<le> pidv lib msa i j \<and> pidv lib msa i j \<le> pid_max st'"
    using a by auto
  moreover have "pid_min st' = 1 \<or> (\<exists>i j. i < j \<and> j < ?n \<and> pid_min st' = pidv lib msa i j)"
  proof (cases "pid_min st' = 1")
    case False
    with e1 obtain i j where "j \<in> {i + 1..<?n}" and "pid_min st' = pidv lib msa i j"
      by blast
    moreover from this have "i < j \<and> j < ?n" by simp
    ultimately show ?thesis by blast
  qed simp
  moreover have "pid_max st' = 0 \<or> (\<exists>i j. i < j \<and> j < ?n \<and> pid_max st' = pidv lib msa i j)"
  proof (cases "pid_max st' = 0")
    case False
    with e2 obtain i j where "j \<in> {i + 1..<?n}" and "pid_max st' = pidv lib msa i j"
      by blast
    moreover from this have "i < j \<and> j < ?n" by simp
    ultimately show ?thesis by blast
  qed simp
  ultimately show ?thesis using b by blast
qed

lemma pid_sum_bounds:
  assumes "\<forall>i j. i < j \<and> j < n \<longrightarrow> lo \<le> f i j \<and> f i j \<le> hi"
  shows "lo * (real n * (real n - 1) / 2) \<le> (\<Sum>i = 0..<n. \<Sum>j = i + 1..<n. f i j)"
    and "(\<Sum>i = 0..<n. \<Sum>j = i + 1..<n. f i j) \<le> hi * (real n * (real n - 1) / 2)"
proof -
  have c: "(\<Sum>i = 0..<n. \<Sum>j = i + 1..<n. c) = c * (real n * (real n - 1) / 2)" for c :: real
  proof -
    have "(\<Sum>i = 0..<n. \<Sum>j = i + 1..<n. c) = (\<Sum>i = 0..<n. real (n - Suc i) * c)"
      by simp
    also have "\<dots> = (\<Sum>i = 0..<n. real (n - Suc i)) * c"
      by (simp only: sum_distrib_right)
    finally show ?thesis by (simp only: pairs_count mult.commute)
  qed
  have "(\<Sum>i = 0..<n. \<Sum>j = i + 1..<n. lo) \<le> (\<Sum>i = 0..<n. \<Sum>j = i + 1..<n. f i j)"
    by (intro sum_mono) (use assms in auto)
  then show "lo * (real n * (real n - 1) / 2) \<le> (\<Sum>i = 0..<n. \<Sum>j = i + 1..<n. f i j)"
    by (simp only: c)
  have "(\<Sum>i = 0..<n. \<Sum>j = i + 1..<n. f i j) \<le> (\<Sum>i = 0..<n. \<Sum>j = i + 1..<n. hi)"
    by (intro sum_mono) (use assms in auto)
  then show "(\<Sum>i = 0..<n. \<Sum>j = i + 1..<n. f i j) \<le> hi * (real n * (real n - 1) / 2)"
    by (simp only: c)
qed

text \<open>
  With at least two and at most 46341 sequences (the largest number for which
  \<open>nseq * (nseq - 1)\<close> fits a 32-bit \<^verbatim>\<open>int\<close>), and a library identity in \<open>[0, 1]\<close> for
  every pair, the mean is the sum over the pairs \<open>i < j\<close> divided by their number, the
  minimum and the maximum are attained and bound every pair, and the mean lies between
  them.
\<close>

lemma c_rfam_pid_stats_mean_between:
  assumes n2: "2 \<le> nseq msa" and nb: "nseq msa \<le> 46341"
    and pid: "\<forall>i j. i < j \<and> j < nat (nseq msa) \<longrightarrow>
                (\<exists>p. msa_pairid lib msa i j = Some p \<and> 0 \<le> p \<and> p \<le> 1)"
  shows "\<exists>mean mn mx.
           c_rfam_pid_stats lib msa =
             Inr \<lparr>ret_pid_mean = Some mean, ret_pid_min = mn, ret_pid_max = mx\<rparr>
         \<and> mn \<le> mean \<and> mean \<le> mx
         \<and> mean = (\<Sum>i = 0..<nat (nseq msa). \<Sum>j = i + 1..<nat (nseq msa). pidv lib msa i j)
                    / (real (nat (nseq msa)) * (real (nat (nseq msa)) - 1) / 2)
         \<and> (\<forall>i j. i < j \<and> j < nat (nseq msa) \<longrightarrow>
               mn \<le> pidv lib msa i j \<and> pidv lib msa i j \<le> mx)
         \<and> (\<exists>i j. i < j \<and> j < nat (nseq msa) \<and> mn = pidv lib msa i j)
         \<and> (\<exists>i j. i < j \<and> j < nat (nseq msa) \<and> mx = pidv lib msa i j)"
proof -
  let ?n = "nat (nseq msa)"
  let ?cnt = "real ?n * (real ?n - 1) / 2"
  let ?S = "\<Sum>i = 0..<?n. \<Sum>j = i + 1..<?n. pidv lib msa i j"
  have some: "\<forall>i j. i < j \<and> j < ?n \<longrightarrow> (\<exists>p. msa_pairid lib msa i j = Some p)"
    using pid by blast
  have rng: "0 \<le> pidv lib msa i j \<and> pidv lib msa i j \<le> 1" if "i < j" "j < ?n" for i j
    using pid that by (fastforce simp: pidv_def)
  from pid_stats_result [OF some] obtain mn mx where
    r: "c_rfam_pid_stats lib msa =
           Inr \<lparr>ret_pid_mean = ddiv (\<Sum>i = 0..<?n. pid_row_sum lib msa i)
                                  (real_of_int (pid_npairs (nseq msa))),
                ret_pid_min = mn, ret_pid_max = mx\<rparr>"
    and b: "mn \<le> 1" "0 \<le> mx"
    and a: "\<forall>i j. i < j \<and> j < ?n \<longrightarrow> mn \<le> pidv lib msa i j \<and> pidv lib msa i j \<le> mx"
    and e1: "mn = 1 \<or> (\<exists>i j. i < j \<and> j < ?n \<and> mn = pidv lib msa i j)"
    and e2: "mx = 0 \<or> (\<exists>i j. i < j \<and> j < ?n \<and> mx = pidv lib msa i j)"
    by blast
  have n: "2 \<le> ?n" using n2 by simp
  then have "2 \<le> real ?n" by simp
  then have cpos: "0 < ?cnt" by simp
  have np: "real_of_int (pid_npairs (nseq msa)) = ?cnt"
    using n2 nb by (intro pid_npairs_exact) simp_all
  have S: "(\<Sum>i = 0..<?n. pid_row_sum lib msa i) = ?S"
    by (simp add: pid_row_sum_def)
  have r': "c_rfam_pid_stats lib msa =
      Inr \<lparr>ret_pid_mean = Some (?S / ?cnt), ret_pid_min = mn, ret_pid_max = mx\<rparr>"
  proof -
    have d: "ddiv x c = Some (x / c)" if "0 < c" for x c
      using that by (simp add: ddiv_def)
    show ?thesis by (simp only: r np S d [OF cpos])
  qed
  have "mn * ?cnt \<le> ?S" and "?S \<le> mx * ?cnt"
    using pid_sum_bounds [OF a] by simp_all
  moreover have "lo \<le> x / c \<and> x / c \<le> hi"
    if "0 < c" "lo * c \<le> x" "x \<le> hi * c" for lo hi x c :: real
    using that by (simp add: pos_le_divide_eq pos_divide_le_eq)
  ultimately have bt: "mn \<le> ?S / ?cnt \<and> ?S / ?cnt \<le> mx"
    using cpos by blast
  have p01: "(0::nat) < 1 \<and> 1 < ?n" using n by simp
  have x1: "\<exists>i j. i < j \<and> j < ?n \<and> mn = pidv lib msa i j"
  proof (cases "mn = 1")
    case True
    have "mn \<le> pidv lib msa 0 1" "pidv lib msa 0 1 \<le> 1"
      using a p01 rng [of 0 1] by simp_all
    with True have "mn = pidv lib msa 0 1" by simp
    with p01 show ?thesis by blast
  next
    case False
    with e1 show ?thesis by blast
  qed
  have x2: "\<exists>i j. i < j \<and> j < ?n \<and> mx = pidv lib msa i j"
  proof (cases "mx = 0")
    case True
    have "pidv lib msa 0 1 \<le> mx" "0 \<le> pidv lib msa 0 1"
      using a p01 rng [of 0 1] by simp_all
    with True have "mx = pidv lib msa 0 1" by simp
    with p01 show ?thesis by blast
  next
    case False
    with e2 show ?thesis by blast
  qed
  from r' bt a x1 x2 show ?thesis by blast
qed

lemma spec_XPairId_same_row: "spec_XPairId rna_abc [255, 0, 255] [255, 0, 255] = Some 1"
  by code_simp

text \<open>
  C8 fails for large alignments: with 65536 sequences, all equal, every pairwise
  identity is 1, minimum and maximum are 1, the sum is 2147450880, and the divisor
  \<open>65536 * 65535 / 2\<close> computed in \<^verbatim>\<open>int\<close> is \<open>- 32768\<close>, so the mean returned is
  \<open>- 65535\<close>, below the minimum.
\<close>

theorem c_rfam_pid_stats_overflow:
  "wf_msa msa_big \<and> nseq msa_big = 65536
   \<and> pid_npairs (nseq msa_big) = - 32768
   \<and> c_rfam_pid_stats lib_spec msa_big =
       Inr \<lparr>ret_pid_mean = Some (- 65535), ret_pid_min = 1, ret_pid_max = 1\<rparr>"
proof -
  let ?n = "nat (nseq msa_big)"
  have n: "?n = 65536" and ns: "nseq msa_big = 65536"
    by (simp_all add: msa_big_def)
  have wf: "wf_msa msa_big"
    by (simp add: wf_msa_def msa_big_def list_all_iff)
  have p: "msa_pairid lib_spec msa_big i j = Some 1" if "i < j" "j < ?n" for i j
  proof -
    have "i < 65536" "j < 65536" using that n by simp_all
    then have "ax msa_big ! i = [255, 0, 255]" "ax msa_big ! j = [255, 0, 255]"
      by (simp_all add: msa_big_def)
    then show ?thesis
      by (simp add: msa_pairid_def lib_spec_def spec_XPairId_same_row)
         (simp add: msa_big_def spec_XPairId_same_row)
  qed
  then have v: "pidv lib_spec msa_big i j = 1" if "i < j" "j < ?n" for i j
    using that by (simp add: pidv_def)
  have some: "\<forall>i j. i < j \<and> j < ?n \<longrightarrow> (\<exists>p. msa_pairid lib_spec msa_big i j = Some p)"
    using p by blast
  from pid_stats_result [OF some] obtain mn mx where
    r: "c_rfam_pid_stats lib_spec msa_big =
           Inr \<lparr>ret_pid_mean = ddiv (\<Sum>i = 0..<?n. pid_row_sum lib_spec msa_big i)
                                  (real_of_int (pid_npairs (nseq msa_big))),
                ret_pid_min = mn, ret_pid_max = mx\<rparr>"
    and b: "mn \<le> 1" "0 \<le> mx"
    and a: "\<forall>i j. i < j \<and> j < ?n \<longrightarrow>
              mn \<le> pidv lib_spec msa_big i j \<and> pidv lib_spec msa_big i j \<le> mx"
    and e1: "mn = 1 \<or> (\<exists>i j. i < j \<and> j < ?n \<and> mn = pidv lib_spec msa_big i j)"
    and e2: "mx = 0 \<or> (\<exists>i j. i < j \<and> j < ?n \<and> mx = pidv lib_spec msa_big i j)"
    by blast
  have mn: "mn = 1" using e1 v by auto
  have p01: "(0::nat) < 1" "(1::nat) < ?n" using n by simp_all
  from a p01 have "pidv lib_spec msa_big 0 1 \<le> mx" by blast
  moreover have "pidv lib_spec msa_big 0 1 = 1" using p01 by (rule v)
  ultimately have "1 \<le> mx" by simp
  then have mx: "mx = 1" using e2 v by auto
  have bd: "\<forall>i j. i < j \<and> j < ?n \<longrightarrow>
              1 \<le> pidv lib_spec msa_big i j \<and> pidv lib_spec msa_big i j \<le> 1"
    using v by simp
  have "(\<Sum>i = 0..<?n. \<Sum>j = i + 1..<?n. pidv lib_spec msa_big i j)
        = real ?n * (real ?n - 1) / 2"
    using pid_sum_bounds [OF bd] by simp
  then have S: "(\<Sum>i = 0..<?n. pid_row_sum lib_spec msa_big i) = 2147450880"
    unfolding pid_row_sum_def n by simp
  have np: "pid_npairs (nseq msa_big) = - 32768"
    unfolding ns by (simp add: pid_npairs_def int32_def c_div_def)
  have "c_rfam_pid_stats lib_spec msa_big =
       Inr \<lparr>ret_pid_mean = Some (- 65535), ret_pid_min = 1, ret_pid_max = 1\<rparr>"
    unfolding r S np mn mx by (simp add: ddiv_def)
  with wf ns np show ?thesis by blast
qed

text \<open>
  C5, as the code has it: with fewer than two sequences no pair is visited and nothing
  is checked; the function returns normally with the initial minimum 1 and maximum 0,
  and its mean is the division of 0 by 0.
\<close>

theorem c_rfam_pid_stats_fewer_than_two:
  assumes "0 \<le> nseq msa" and "nseq msa < 2"
  shows "c_rfam_pid_stats lib msa =
           Inr \<lparr>ret_pid_mean = None, ret_pid_min = 1, ret_pid_max = 0\<rparr>"
proof -
  from assms have "nseq msa = 0 \<or> nseq msa = 1" by linarith
  then show ?thesis
  proof
    assume "nseq msa = 0"
    then show ?thesis
      by (simp add: c_rfam_pid_stats_def pid_npairs_def int32_def c_div_def ddiv_def)
  next
    assume "nseq msa = 1"
    then show ?thesis
      by (simp add: c_rfam_pid_stats_def pid_seq_def pid_npairs_def int32_def c_div_def ddiv_def)
  qed
qed

theorem c_rfam_pid_stats_fewer_than_two_witness:
  "0 \<le> nseq msa_R \<and> nseq msa_R < 2
   \<and> c_rfam_pid_stats lib_spec msa_R =
       Inr \<lparr>ret_pid_mean = None, ret_pid_min = 1, ret_pid_max = 0\<rparr>"
proof -
  have h1: "0 \<le> nseq msa_R" and h2: "nseq msa_R < 2"
    by (simp_all add: msa_R_def)
  from c_rfam_pid_stats_fewer_than_two [OF h1 h2, of lib_spec] show ?thesis
    using h1 h2 by simp
qed

text \<open>
  C5 as stated (a contract error and no division by zero) fails on the one-sequence
  alignment \<open>msa_R\<close>.
\<close>

theorem c_rfam_pid_stats_no_contract_error_counterexample:
  "nseq msa_R = 1
   \<and> c_rfam_pid_stats lib_spec msa_R \<noteq> Inl ContractViolation
   \<and> c_rfam_pid_stats lib_spec msa_R =
       Inr \<lparr>ret_pid_mean = None, ret_pid_min = 1, ret_pid_max = 0\<rparr>"
  by code_simp

subsection \<open>Pairwise identity of two sequences\<close>

lemma spec_XPairId_range:
  assumes "spec_XPairId a x y = Some p"
  shows "0 \<le> p \<and> p \<le> 1"
proof -
  let ?cols = "filter (\<lambda>(x, y). x \<noteq> abc_K a \<and> y \<noteq> abc_K a) (zip (butlast (tl x)) (butlast (tl y)))"
  let ?n = "length ?cols"
  let ?m = "length (filter (\<lambda>(x, y). x = y) ?cols)"
  from assms have p: "p = (if ?n = 0 then 0 else real ?m / real ?n)"
    by (simp add: spec_XPairId_def Let_def split: if_splits)
  have "?m \<le> ?n" by (rule length_filter_le)
  then have "real ?m \<le> real ?n" by simp
  then show ?thesis unfolding p by (simp add: divide_le_eq)
qed

lemma spec_XPairId_Some:
  "length x = length y \<Longrightarrow> \<exists>p. spec_XPairId a x y = Some p"
  by (simp add: spec_XPairId_def Let_def)

text \<open>
  C9: an index \<open>i\<close> or \<open>j\<close> outside \<open>[0, nseq)\<close> is a contract violation and yields no
  identity; for indices in range, on a well-formed digitized alignment and with the
  pairwise identity modelled from the specification, the result is a fraction in
  \<open>[0, 1]\<close>.
\<close>

theorem c_pairwise_identity_contract:
  "(i < 0 \<or> nseq msa \<le> i \<or> j < 0 \<or> nseq msa \<le> j \<longrightarrow>
      c_pairwise_identity lib msa i j = Inl ContractViolation)
   \<and> (0 \<le> i \<and> i < nseq msa \<and> 0 \<le> j \<and> j < nseq msa \<and> wf_msa msa \<and> digital msa
       \<and> esl_dst_XPairId lib = spec_XPairId \<longrightarrow>
      (\<exists>pid. c_pairwise_identity lib msa i j = Inr pid \<and> 0 \<le> pid \<and> pid \<le> 1))"
proof (intro conjI impI)
  assume "i < 0 \<or> nseq msa \<le> i \<or> j < 0 \<or> nseq msa \<le> j"
  then show "c_pairwise_identity lib msa i j = Inl ContractViolation"
    by (auto simp: c_pairwise_identity_def)
next
  assume h: "0 \<le> i \<and> i < nseq msa \<and> 0 \<le> j \<and> j < nseq msa \<and> wf_msa msa \<and> digital msa
       \<and> esl_dst_XPairId lib = spec_XPairId"
  then have "nat i < length (ax msa)" "nat j < length (ax msa)"
    and rows: "\<forall>row \<in> set (ax msa). length row = nat (alen msa) + 2"
    by (auto simp: wf_msa_def list_all_iff)
  then have "length (ax msa ! nat i) = length (ax msa ! nat j)"
    by simp
  from spec_XPairId_Some [OF this] obtain p where
    p: "spec_XPairId (abc msa) (ax msa ! nat i) (ax msa ! nat j) = Some p"
    by blast
  have "c_pairwise_identity lib msa i j = Inr p"
    using h p by (simp add: c_pairwise_identity_def msa_pairid_def)
  with spec_XPairId_range [OF p]
  show "\<exists>pid. c_pairwise_identity lib msa i j = Inr pid \<and> 0 \<le> pid \<and> pid \<le> 1"
    by blast
qed

theorem c_pairwise_identity_contract_witness:
  "c_pairwise_identity lib_spec msa_gap 2 0 = Inl ContractViolation
   \<and> c_pairwise_identity lib_spec msa_gap 0 (- 1) = Inl ContractViolation
   \<and> wf_msa msa_gap \<and> digital msa_gap \<and> esl_dst_XPairId lib_spec = spec_XPairId
   \<and> (\<exists>pid. c_pairwise_identity lib_spec msa_gap 0 1 = Inr pid \<and> 0 \<le> pid \<and> pid \<le> 1)
   \<and> c_pairwise_identity lib_spec msa_gap 0 1 = Inr 1"
proof -
  have h: "wf_msa msa_gap" "digital msa_gap" "nseq msa_gap = 2"
    by code_simp+
  have l: "esl_dst_XPairId lib_spec = spec_XPairId"
    by (simp add: lib_spec_def)
  have v: "c_pairwise_identity lib_spec msa_gap 0 1 = Inr 1"
    by code_simp
  from c_pairwise_identity_contract [of 2 msa_gap 0 lib_spec]
    c_pairwise_identity_contract [of 0 msa_gap "- 1" lib_spec]
    c_pairwise_identity_contract [of 0 msa_gap 1 lib_spec]
  show ?thesis using h l v by simp
qed

subsection \<open>The report without basepairs\<close>

lemma c_rfam_bp_stats_nbp:
  assumes "c_rfam_bp_stats lib msa = Inr r"
  shows "ret_nbp r = int (length (filter (\<lambda>p. ret_rposA r ! p \<noteq> - 1) [0..<nat (alen msa)]))"
proof -
  from assms obtain ct where ct: "esl_wuss2ct lib (ss_cons msa) (alen msa) = Some ct"
    by (auto simp: c_rfam_bp_stats_def split: option.splits)
  obtain rposA nbp where loc: "locate_bps (alen msa) ct = (rposA, nbp)"
    by (cases "locate_bps (alen msa) ct")
  from assms ct loc have "ret_nbp r = nbp" "ret_rposA r = rposA"
    by (auto simp: c_rfam_bp_stats_def Let_def)
  then show ?thesis using locate_bps_nbp [OF loc] by simp
qed

text \<open>
  C10: when the report has no basepair (\<open>nbp = 0\<close>), the fraction of canonical
  basepairs of the family and of every sequence is exactly 0, a value and not the
  outcome of a division by zero, and the table of basepairs is empty.
\<close>

theorem c_rfam_qc_stats_no_basepairs:
  assumes "c_rfam_qc_stats lib msa = Inr rep" and "fam_no_bps (family rep) = 0"
  shows "fam_fractn_canonical_bps (family rep) = Some 0
       \<and> length (sequences rep) = nat (nseq msa)
       \<and> (\<forall>s \<in> set (sequences rep). seq_fractn_canonical_bps s = Some 0)
       \<and> basepairs rep = []"
proof -
  from assms(1) obtain cs bp where
    c: "c_rfam_comp_and_len_stats msa = Inr cs" and b: "c_rfam_bp_stats lib msa = Inr bp"
    by (auto simp: c_rfam_qc_stats_def split: if_splits sum.splits)
  from assms(1) c b have nb: "fam_no_bps (family rep) = ret_nbp bp"
    by (auto simp: c_rfam_qc_stats_def split: if_splits)
  with assms(2) have z: "ret_nbp bp = 0" by simp
  from c_rfam_bp_stats_nbp [OF b] z
  have e: "filter (\<lambda>apos. ret_rposA bp ! apos \<noteq> - 1) [0..<nat (alen msa)] = []"
    by simp
  from assms(1) c b z e show ?thesis
    by (auto simp: c_rfam_qc_stats_def split: if_splits)
qed

theorem c_rfam_qc_stats_no_basepairs_witness:
  "c_rfam_qc_stats lib_spec msa_R =
     Inr \<lparr>family = \<lparr>fam_fractn_canonical_bps = Some 0, fam_covariation = Some 0,
                     fam_no_seqs = 1, fam_aln_length = 1, fam_no_bps = 0, fam_no_nucs = 1\<rparr>,
          sequences = [\<lparr>seq_fractn_canonical_bps = Some 0, seq_len = 1\<rparr>],
          basepairs = []\<rparr>
   \<and> c_rfam_qc_stats lib_pair msa_gap =
     Inr \<lparr>family = \<lparr>fam_fractn_canonical_bps = Some (1 / 2), fam_covariation = Some (- 1),
                     fam_no_seqs = 2, fam_aln_length = 2, fam_no_bps = 1, fam_no_nucs = 3\<rparr>,
          sequences = [\<lparr>seq_fractn_canonical_bps = Some 0, seq_len = 1\<rparr>,
                       \<lparr>seq_fractn_canonical_bps = Some 1, seq_len = 2\<rparr>],
          basepairs = [\<lparr>bp_left = 1, bp_right = 2, bp_fractn_canonical_bps = Some (1 / 2),
                         bp_covariation = - 1\<rparr>]\<rparr>"
proof -
  have h: "c_rfam_qc_stats lib_spec msa_R =
     Inr \<lparr>family = \<lparr>fam_fractn_canonical_bps = Some 0, fam_covariation = Some 0,
                     fam_no_seqs = 1, fam_aln_length = 1, fam_no_bps = 0, fam_no_nucs = 1\<rparr>,
          sequences = [\<lparr>seq_fractn_canonical_bps = Some 0, seq_len = 1\<rparr>],
          basepairs = []\<rparr>"
    by code_simp
  have g: "c_rfam_qc_stats lib_pair msa_gap =
     Inr \<lparr>family = \<lparr>fam_fractn_canonical_bps = Some (1 / 2), fam_covariation = Some (- 1),
                     fam_no_seqs = 2, fam_aln_length = 2, fam_no_bps = 1, fam_no_nucs = 3\<rparr>,
          sequences = [\<lparr>seq_fractn_canonical_bps = Some 0, seq_len = 1\<rparr>,
                       \<lparr>seq_fractn_canonical_bps = Some 1, seq_len = 2\<rparr>],
          basepairs = [\<lparr>bp_left = 1, bp_right = 2, bp_fractn_canonical_bps = Some (1 / 2),
                         bp_covariation = - 1\<rparr>]\<rparr>"
    by code_simp
  from c_rfam_qc_stats_no_basepairs [OF h] show ?thesis
    using h g by simp
qed

end
